theory Spec2Isabelle
  imports Main
begin

section \<open>genmsg\_cpp: C++ source generation for ROS message schemas\<close>

text \<open>
  A shallow embedding of \<^verbatim>\<open>core/roscpp/scripts/genmsg_cpp.py\<close>. Python strings are
  \<^typ>\<open>string\<close>; the \<^verbatim>\<open>StringIO\<close> buffer \<^verbatim>\<open>s\<close> is passed explicitly, every
  \<^verbatim>\<open>s.write(x)\<close> being \<open>s @ x\<close>; exceptions are values of \<open>error\<close>.
\<close>

subsection \<open>Python strings\<close>

text \<open>Characters that cannot be written inside a HOL string literal.\<close>

definition dquote :: char where
  "dquote = CHR 0x22"

definition backslash :: char where
  "backslash = CHR 0x5C"

definition newline :: char where
  "newline = CHR 0x0A"

text \<open>\<^verbatim>\<open>str.split(sep)\<close> for a one-character separator: never empty, the pieces between the
  separators, empty pieces kept.\<close>

fun split :: "char \<Rightarrow> string \<Rightarrow> string list" where
  "split sep [] = [[]]"
| "split sep (c # cs) =
     (if c = sep then [] # split sep cs
      else (case split sep cs of
              [] \<Rightarrow> [[c]]
            | w # ws \<Rightarrow> (c # w) # ws))"

text \<open>\<^verbatim>\<open>str.replace(old, new)\<close> for a one-character \<^verbatim>\<open>old\<close>.\<close>

definition replace :: "char \<Rightarrow> string \<Rightarrow> string \<Rightarrow> string" where
  "replace old new line = concat (map (\<lambda>c. if c = old then new else [c]) line)"

text \<open>\<^verbatim>\<open>str.upper()\<close> and \<^verbatim>\<open>str.lower()\<close> on byte strings: the ASCII letters change case,
  every other byte is kept.\<close>

definition upper_char :: "char \<Rightarrow> char" where
  "upper_char c =
     (let n = (of_char c :: nat) in if 97 \<le> n \<and> n \<le> 122 then char_of (n - 32) else c)"

definition lower_char :: "char \<Rightarrow> char" where
  "lower_char c =
     (let n = (of_char c :: nat) in if 65 \<le> n \<and> n \<le> 90 then char_of (n + 32) else c)"

definition upper :: "string \<Rightarrow> string" where
  "upper s = map upper_char s"

definition lower :: "string \<Rightarrow> string" where
  "lower s = map lower_char s"

text \<open>\<^verbatim>\<open>'%s' % n\<close> for an integer \<^verbatim>\<open>n\<close>: its decimal digits, with a sign when negative.\<close>

definition digit_char :: "nat \<Rightarrow> char" where
  "digit_char d = char_of (48 + d)"

fun str_nat :: "nat \<Rightarrow> string" where
  "str_nat n = (if n < 10 then [digit_char n] else str_nat (n div 10) @ [digit_char (n mod 10)])"

declare str_nat.simps [simp del]

definition str_int :: "int \<Rightarrow> string" where
  "str_int i = (if i < 0 then CHR ''-'' # str_nat (nat (- i)) else str_nat (nat i))"

subsection \<open>Schemas and the roslib collaborators\<close>

text \<open>\<^verbatim>\<open>roslib.msgs.Constant\<close> with its attributes \<^verbatim>\<open>type\<close>, \<^verbatim>\<open>name\<close> and \<^verbatim>\<open>val\<close>;
  \<open>const_val\<close> is the text that \<^verbatim>\<open>'%s' % constant.val\<close> gives.\<close>

record msg_constant =
  const_type :: string
  const_name :: string
  const_val :: string

text \<open>\<^verbatim>\<open>roslib.msgs.MsgSpec\<close>: \<open>spec_fields\<close> is what \<^verbatim>\<open>spec.fields()\<close> returns, the
  (type, name) pairs in declared order; \<open>has_header\<close> is what \<^verbatim>\<open>spec.has_header()\<close> returns.\<close>

record msgspec =
  spec_fields :: "(string \<times> string) list"
  constants :: "msg_constant list"
  has_header :: bool

datatype error =
    ValueError string
  | KeyError string
  | IndexError
  | MsgSpecException string
  | GenException string

text \<open>
  The functions of \<^verbatim>\<open>roslib.msgs\<close> and \<^verbatim>\<open>roslib.names\<close> that the generator calls are not
  part of the script; they are parameters of the model. \<open>parse_type\<close> returns
  \<^verbatim>\<open>(base_type, is_array, array_len)\<close>, with \<open>None\<close> for Python's \<^verbatim>\<open>None\<close>; it is applied
  to the types of a schema that the parser has accepted, on which it returns.
  \<open>load_by_type\<close> returns the schema of its \<^verbatim>\<open>(name, spec)\<close> result, or the exception raised.
  \<open>set_iter\<close> is the order in which Python iterates over \<^verbatim>\<open>set(types)\<close>, given the list
  \<^verbatim>\<open>types\<close>: the order of a hash table, which may depend on the order of the insertions.
\<close>

record roslib =
  parse_type :: "string \<Rightarrow> string \<times> bool \<times> int option"
  is_builtin :: "string \<Rightarrow> bool"
  is_header_type :: "string \<Rightarrow> bool"
  package_resource_name :: "string \<Rightarrow> string \<times> string"
  load_by_type :: "string \<Rightarrow> string \<Rightarrow> error + msgspec"
  set_iter :: "string list \<Rightarrow> string list"

subsection \<open>Type mapping\<close>

definition MSG_TYPE_TO_CPP :: "string \<rightharpoonup> string" where
  "MSG_TYPE_TO_CPP = map_of
     [(''byte'', ''int8_t''), (''char'', ''uint8_t''),
      (''bool'', ''uint8_t''),
      (''uint8'', ''uint8_t''), (''int8'', ''int8_t''),
      (''uint16'', ''uint16_t''), (''int16'', ''int16_t''),
      (''uint32'', ''uint32_t''), (''int32'', ''int32_t''),
      (''uint64'', ''uint64_t''), (''int64'', ''int64_t''),
      (''float32'', ''float''),
      (''float64'', ''double''),
      (''string'', ''std::string''),
      (''time'', ''ros::Time''),
      (''duration'', ''ros::Duration'')]"

text \<open>A builtin is looked up in the table (a missing key raises); \<^verbatim>\<open>split('/')[0]\<close> and
  \<^verbatim>\<open>split('/')[1]\<close> are the first two pieces, whatever follows them.\<close>

definition msg_type_to_cpp :: "roslib \<Rightarrow> string \<Rightarrow> error + string" where
  "msg_type_to_cpp r type =
     (case parse_type r type of
        (base_type, is_array, array_len) \<Rightarrow>
          (case (if is_builtin r base_type then
                   (case MSG_TYPE_TO_CPP base_type of
                      None \<Rightarrow> Inl (KeyError base_type)
                    | Some cpp_type \<Rightarrow> Inr cpp_type)
                 else if length (split CHR ''/'' base_type) = 1 then
                   (if is_header_type r base_type then Inr ''roslib::Header''
                    else Inr base_type)
                 else
                   (case split CHR ''/'' base_type of
                      pkg # msg # _ \<Rightarrow> Inr (pkg @ ''::'' @ msg)
                    | _ \<Rightarrow> Inl IndexError)) of
             Inl e \<Rightarrow> Inl e
           | Inr cpp_type \<Rightarrow>
               if is_array then
                 (case array_len of
                    None \<Rightarrow> Inr (''std::vector<'' @ cpp_type @ ''>'')
                  | Some n \<Rightarrow> Inr (''boost::array<'' @ cpp_type @ '', '' @ str_int n @ ''>''))
               else Inr cpp_type))"

subsection \<open>Include guard\<close>

definition write_begin :: "string \<Rightarrow> string \<Rightarrow> string \<Rightarrow> string \<Rightarrow> string" where
  "write_begin s pkg msg file =
     (let s = s @ ''/* Auto-generated by genmsg_cpp for file '' @ file @ '' */\<newline>'';
          s = s @ ''#ifndef '' @ upper pkg @ ''_'' @ upper msg @ ''_H\<newline>'';
          s = s @ ''#define '' @ upper pkg @ ''_'' @ upper msg @ ''_H\<newline>''
      in s)"

definition write_end :: "string \<Rightarrow> string \<Rightarrow> string \<Rightarrow> string" where
  "write_end s pkg msg =
     s @ ''#endif // '' @ upper pkg @ ''_'' @ upper msg @ ''_H\<newline>''"

subsection \<open>Includes\<close>

fun write_includes_loop :: "roslib \<Rightarrow> string \<Rightarrow> (string \<times> string) list \<Rightarrow> string" where
  "write_includes_loop r s [] = s"
| \<open>write_includes_loop r s ((type, name) # fs) =
     (case parse_type r type of
        (base_type, is_array, array_len) \<Rightarrow>
          if \<not> is_builtin r base_type then
            (if is_header_type r base_type then
               write_includes_loop r (s @ ''#include "roslib/Header.h"\<newline>'') fs
             else
               write_includes_loop r (s @ ''#include "'' @ base_type @ ''.h"\<newline>'') fs)
          else write_includes_loop r s fs)\<close>

definition write_includes :: "roslib \<Rightarrow> string \<Rightarrow> msgspec \<Rightarrow> string" where
  \<open>write_includes r s spec =
     (let s = s @ ''#include <string>\<newline>'';
          s = s @ ''#include <vector>\<newline>'';
          s = s @ ''#include "ros/serialization.h"\<newline>'';
          s = s @ ''#include "ros/builtin_message_traits.h"\<newline>'';
          s = s @ ''#include "ros/message.h"\<newline>'';
          s = s @ ''#include "ros/time.h"\<newline>\<newline>'';
          s = write_includes_loop r s (spec_fields spec)
      in s @ ''\<newline>'')\<close>

subsection \<open>Constructor, members and constants\<close>

definition default_value :: "string \<Rightarrow> string" where
  "default_value type =
     (if type \<in> set [''byte'', ''int8'', ''int16'', ''int32'', ''int64'',
                      ''char'', ''uint8'', ''uint16'', ''uint32'', ''uint64''] then ''0''
      else if type \<in> set [''float32'', ''float64''] then ''0.0''
      else if type = ''bool'' then ''false''
      else [])"

text \<open>The first loop of \<^verbatim>\<open>write_constructor\<close>: the initializer list, \<open>i\<close> counting the
  entries written so far.\<close>

fun write_constructor_inits ::
  "roslib \<Rightarrow> string \<Rightarrow> nat \<Rightarrow> (string \<times> string) list \<Rightarrow> string" where
  "write_constructor_inits r s i [] = s"
| "write_constructor_inits r s i ((type, name) # fs) =
     (case parse_type r type of
        (base_type, is_array, array_len) \<Rightarrow>
          if is_array then write_constructor_inits r s i fs
          else
            (let s = (if i = 0 then s @ ''  : '' else s @ ''  , '');
                 s = s @ ''  '' @ name @ ''('' @ default_value base_type @ '')\<newline>''
             in write_constructor_inits r s (i + 1) fs))"

text \<open>The second loop: the fill statements of the fixed-length arrays.\<close>

fun write_constructor_assigns ::
  "roslib \<Rightarrow> string \<Rightarrow> (string \<times> string) list \<Rightarrow> string" where
  "write_constructor_assigns r s [] = s"
| "write_constructor_assigns r s ((type, name) # fs) =
     (case parse_type r type of
        (base_type, is_array, array_len) \<Rightarrow>
          if \<not> is_array \<or> array_len = None then write_constructor_assigns r s fs
          else
            (let val = default_value base_type
             in if length val > 0 then
                  write_constructor_assigns r
                    (s @ ''    '' @ name @ ''.assign('' @ val @ '');\<newline>'') fs
                else write_constructor_assigns r s fs))"

definition write_constructor :: "roslib \<Rightarrow> string \<Rightarrow> string \<Rightarrow> msgspec \<Rightarrow> string" where
  "write_constructor r s msg spec =
     (let s = s @ ''  '' @ msg @ ''()\<newline>'';
          s = write_constructor_inits r s 0 (spec_fields spec);
          s = s @ ''  {\<newline>'';
          s = write_constructor_assigns r s (spec_fields spec)
      in s @ ''  }\<newline>\<newline>'')"

definition write_member :: "roslib \<Rightarrow> string \<Rightarrow> string \<Rightarrow> string \<Rightarrow> error + string" where
  "write_member r s type name =
     (case msg_type_to_cpp r type of
        Inl e \<Rightarrow> Inl e
      | Inr cpp_type \<Rightarrow>
          (let s = s @ ''  typedef '' @ cpp_type @ '' _'' @ name @ ''_type;\<newline>''
           in Inr (s @ ''  '' @ cpp_type @ '' '' @ name @ '';\<newline>\<newline>'')))"

fun write_members_loop :: "roslib \<Rightarrow> string \<Rightarrow> (string \<times> string) list \<Rightarrow> error + string" where
  "write_members_loop r s [] = Inr s"
| "write_members_loop r s ((type, name) # fs) =
     (case write_member r s type name of
        Inl e \<Rightarrow> Inl e
      | Inr s \<Rightarrow> write_members_loop r s fs)"

definition write_members :: "roslib \<Rightarrow> string \<Rightarrow> msgspec \<Rightarrow> error + string" where
  "write_members r s spec = write_members_loop r s (spec_fields spec)"

definition write_constant :: "roslib \<Rightarrow> string \<Rightarrow> msg_constant \<Rightarrow> error + string" where
  "write_constant r s constant =
     (if const_type constant \<notin> set [''byte'', ''int8'', ''int16'', ''int32'', ''int64'',
                                    ''char'', ''uint8'', ''uint16'', ''uint32'', ''uint64'',
                                    ''float32'', ''float64''] then
        Inl (ValueError (const_type constant @ '' not supported as a constant''))
      else
        (case msg_type_to_cpp r (const_type constant) of
           Inl e \<Rightarrow> Inl e
         | Inr cpp_type \<Rightarrow>
             Inr (s @ ''  static const '' @ cpp_type @ '' '' @ const_name constant @ '' = ''
                    @ const_val constant @ '';\<newline>'')))"

fun write_constants_loop :: "roslib \<Rightarrow> string \<Rightarrow> msg_constant list \<Rightarrow> error + string" where
  "write_constants_loop r s [] = Inr s"
| "write_constants_loop r s (constant # cs) =
     (case write_constant r s constant of
        Inl e \<Rightarrow> Inl e
      | Inr s \<Rightarrow> write_constants_loop r s cs)"

definition write_constants :: "roslib \<Rightarrow> string \<Rightarrow> msgspec \<Rightarrow> error + string" where
  "write_constants r s spec =
     (case write_constants_loop r s (constants spec) of
        Inl e \<Rightarrow> Inl e
      | Inr s \<Rightarrow> Inr (s @ ''\<newline>''))"

text \<open>Inside \<^verbatim>\<open>write_struct\<close> the deprecated member functions forward to the traits and to
  the serializer of \<^verbatim>\<open>pkg::msg\<close>.\<close>

definition write_deprecated_member_functions ::
  "string \<Rightarrow> msgspec \<Rightarrow> string \<Rightarrow> string \<Rightarrow> string" where
  "write_deprecated_member_functions s spec pkg msg =
     (let cpp_msg = pkg @ ''::'' @ msg;
          s = s @ ''  virtual const std::string __getDataType() const { return ros::message_traits::datatype<'' @ cpp_msg @ ''>(); }\<newline>'';
          s = s @ ''  virtual const std::string __getMD5Sum() const { return ros::message_traits::md5sum<'' @ cpp_msg @ ''>(); }\<newline>'';
          s = s @ ''  virtual const std::string __getMessageDefinition() const { return ros::message_traits::definition<'' @ cpp_msg @ ''>(); }\<newline>'';
          s = s @ ''  virtual uint32_t serializationLength() const { return ros::serialization::Serializer<'' @ cpp_msg @ ''>::serializedLength(*this); }\<newline>'';
          s = s @ ''  virtual uint8_t *serialize(uint8_t *write_ptr, uint32_t seq) const { ros::serialization::Buffer b(write_ptr, 1000000000); b = ros::serialization::Serializer<'' @ cpp_msg @ ''>::write(b, *this); return b.data; }\<newline>''
      in s @ ''  virtual uint8_t *deserialize(uint8_t *read_ptr) { ros::serialization::Buffer b(read_ptr, 1000000000); b = ros::serialization::Serializer<'' @ cpp_msg @ ''>::read(b, *this); return b.data; }\<newline>\<newline>'')"

definition write_struct ::
  "roslib \<Rightarrow> string \<Rightarrow> msgspec \<Rightarrow> string \<Rightarrow> string \<Rightarrow> error + string" where
  "write_struct r s spec pkg msg =
     (let s = s @ ''struct '' @ msg @ '' : public ros::Message\<newline>{\<newline>'';
          s = write_constructor r s msg spec
      in case write_members r s spec of
           Inl e \<Rightarrow> Inl e
         | Inr s \<Rightarrow>
             (case write_constants r s spec of
                Inl e \<Rightarrow> Inl e
              | Inr s \<Rightarrow>
                  (let s = write_deprecated_member_functions s spec pkg msg;
                       cpp_msg = pkg @ ''::'' @ msg;
                       s = s @ ''  typedef boost::shared_ptr<'' @ cpp_msg @ ''> Ptr;\<newline>'';
                       s = s @ ''  typedef boost::shared_ptr<'' @ cpp_msg @ '' const> ConstPtr;\<newline>'';
                       s = s @ ''}; // struct '' @ msg @ ''\<newline>'';
                       s = s @ ''typedef boost::shared_ptr<'' @ cpp_msg @ ''> '' @ msg @ ''Ptr;\<newline>''
                   in Inr (s @ ''typedef boost::shared_ptr<'' @ cpp_msg @ '' const> '' @ msg
                             @ ''ConstPtr;\<newline>''))))"

definition write_struct_bodies :: "string \<Rightarrow> msgspec \<Rightarrow> string \<Rightarrow> string \<Rightarrow> string" where
  "write_struct_bodies s spec pkg msg = s"

subsection \<open>Fixed-length analysis\<close>

text \<open>The first loop of \<^verbatim>\<open>is_fixed_length\<close>, \<open>types\<close> being the list built so far;
  \<open>None\<close> is the \<^verbatim>\<open>return False\<close> inside the loop.\<close>

fun is_fixed_length_scan ::
  "roslib \<Rightarrow> string list \<Rightarrow> (string \<times> string) list \<Rightarrow> string list option" where
  "is_fixed_length_scan r types [] = Some types"
| "is_fixed_length_scan r types ((type, name) # fs) =
     (case parse_type r type of
        (base_type, is_array, array_len) \<Rightarrow>
          if is_array \<and> array_len = None then None
          else if base_type = ''string'' then None
          else if \<not> is_builtin r base_type then is_fixed_length_scan r (types @ [base_type]) fs
          else is_fixed_length_scan r types fs)"

text \<open>
  The recursion of \<^verbatim>\<open>is_fixed_length\<close> through the schemas it loads has no cycle guard; the
  first argument bounds its depth, and \<open>None\<close> says that the bound was reached.
  \<open>is_fixed_length_types\<close> is the second loop, over \<^verbatim>\<open>set(types)\<close>.
\<close>

fun is_fixed_length :: "nat \<Rightarrow> roslib \<Rightarrow> msgspec \<Rightarrow> string \<Rightarrow> (error + bool) option"
  and is_fixed_length_types ::
    "nat \<Rightarrow> roslib \<Rightarrow> string list \<Rightarrow> string \<Rightarrow> (error + bool) option" where
  "is_fixed_length 0 r spec package = None"
| "is_fixed_length (Suc n) r spec package =
     (case is_fixed_length_scan r [] (spec_fields spec) of
        None \<Rightarrow> Some (Inr False)
      | Some types \<Rightarrow> is_fixed_length_types n r (set_iter r types) package)"
| "is_fixed_length_types n r [] package = Some (Inr True)"
| "is_fixed_length_types n r (type # ts) package =
     (case package_resource_name r type of
        (pkg, name) \<Rightarrow>
          (let pkg = (if pkg = [] then package else pkg)
           in case load_by_type r type pkg of
                Inl e \<Rightarrow> Some (Inl e)
              | Inr new_spec \<Rightarrow>
                  (case is_fixed_length n r new_spec pkg of
                     None \<Rightarrow> None
                   | Some (Inl e) \<Rightarrow> Some (Inl e)
                   | Some (Inr fixed) \<Rightarrow>
                       if \<not> fixed then Some (Inr False)
                       else is_fixed_length_types n r ts package)))"



subsection \<open>Traits\<close>

definition write_traits_declarations ::
  "string \<Rightarrow> msgspec \<Rightarrow> string \<Rightarrow> string \<Rightarrow> string" where
  "write_traits_declarations s spec pkg msg =
     (let cpp_msg = pkg @ ''::'' @ msg;
          s = s @ ''namespace ros\<newline>{\<newline>'';
          s = s @ ''namespace message_traits\<newline>{\<newline>'';
          s = s @ ''template<> inline const char* md5sum<'' @ cpp_msg @ ''>();\<newline>'';
          s = s @ ''template<> inline const char* datatype<'' @ cpp_msg @ ''>();\<newline>'';
          s = s @ ''template<> inline const char* definition<'' @ cpp_msg @ ''>();\<newline>'';
          s = s @ ''} // namespace message_traits\<newline>''
      in s @ ''} // namespace ros\<newline>\<newline>'')"

text \<open>
  The collaborators of one run: \<^verbatim>\<open>roslib.packages.get_dir_pkg\<close>,
  \<^verbatim>\<open>roslib.msgs.load_from_file\<close> and the dependency digest of \<^verbatim>\<open>roslib.gentools\<close>, whose
  dictionary is of the type \<open>'d\<close>.
\<close>

record 'd gentools =
  get_dir_pkg :: "string \<Rightarrow> error + string \<times> string"
  load_from_file :: "string \<Rightarrow> error + string \<times> msgspec"
  get_dependencies :: "msgspec \<Rightarrow> string \<Rightarrow> error + 'd"
  compute_md5 :: "'d \<Rightarrow> string"
  compute_full_text :: "'d \<Rightarrow> string"

text \<open>The loop of \<^verbatim>\<open>compute_full_text_escaped\<close>. Python strings are immutable:
  \<^verbatim>\<open>line.replace(...)\<close> returns a new string, which the two statements drop.\<close>

fun compute_full_text_escaped_loop :: "string \<Rightarrow> string list \<Rightarrow> string" where
  "compute_full_text_escaped_loop s [] = s"
| "compute_full_text_escaped_loop s (line # lines) =
     (let _ = replace backslash [backslash, backslash] line;
          _ = replace dquote [backslash, dquote] line
      in compute_full_text_escaped_loop
           (s @ [dquote] @ line @ [backslash, CHR ''n'', dquote, newline]) lines)"

definition compute_full_text_escaped :: "'d gentools \<Rightarrow> 'd \<Rightarrow> string" where
  "compute_full_text_escaped g gen_deps_dict =
     (let definition = compute_full_text g gen_deps_dict;
          lines = split newline definition;
          val = compute_full_text_escaped_loop [] lines
      in val)"

definition write_traits_bodies ::
  "nat \<Rightarrow> roslib \<Rightarrow> 'd gentools \<Rightarrow> string \<Rightarrow> msgspec \<Rightarrow> string \<Rightarrow> string
     \<Rightarrow> (error + string) option" where
  \<open>write_traits_bodies n r g s spec pkg msg =
     (case get_dependencies g spec pkg of
        Inl e \<Rightarrow> Some (Inl e)
      | Inr gendeps_dict \<Rightarrow>
          (let md5sum = compute_md5 g gendeps_dict;
               full_text = compute_full_text_escaped g gendeps_dict;
               cpp_msg = pkg @ ''::'' @ msg;
               s = s @ ''namespace ros\<newline>{\<newline>'';
               s = s @ ''namespace message_traits\<newline>{\<newline>'';
               s = s @ ''template<> inline const char* md5sum<'' @ cpp_msg @ ''>() { return "''
                     @ md5sum @ ''"; }\<newline>'';
               s = s @ ''template<> inline const char* datatype<'' @ cpp_msg @ ''>() { return "''
                     @ pkg @ ''/'' @ msg @ ''"; }\<newline>'';
               s = s @ ''template<> inline const char* definition<'' @ cpp_msg
                     @ ''>()\<newline>{\<newline>  return\<newline>'';
               s = s @ full_text;
               s = s @ '';\<newline>}\<newline>\<newline>'';
               s = (if has_header spec then
                      (let s = s @ ''template<> struct HasHeader<'' @ cpp_msg
                                 @ ''> : public TrueType {};\<newline>''
                       in s @ ''template<> inline roslib::Header* getHeader('' @ cpp_msg
                            @ ''& m) { return &m.header; }\<newline>'')
                    else s)
           in case is_fixed_length n r spec pkg of
                None \<Rightarrow> None
              | Some (Inl e) \<Rightarrow> Some (Inl e)
              | Some (Inr fixed) \<Rightarrow>
                  (let s = (if fixed then
                              s @ ''template<> struct IsFixedSize<'' @ cpp_msg
                                @ ''> : public TrueType {};\<newline>''
                            else s);
                       s = s @ ''\<newline>'';
                       s = s @ ''} // namespace message_traits\<newline>''
                   in Some (Inr (s @ ''} // namespace ros\<newline>\<newline>'')))))\<close>

subsection \<open>Serialization\<close>

definition write_serialization_declarations ::
  "string \<Rightarrow> msgspec \<Rightarrow> string \<Rightarrow> string \<Rightarrow> string" where
  "write_serialization_declarations s spec pkg msg =
     (let cpp_msg = pkg @ ''::'' @ msg;
          s = s @ ''namespace ros\<newline>{\<newline>'';
          s = s @ ''namespace serialization\<newline>{\<newline>'';
          s = s @ ''template<> struct Serializer<'' @ cpp_msg @ ''>\<newline>{\<newline>'';
          s = s @ ''  inline static Buffer write(Buffer buffer, const '' @ cpp_msg @ ''& m);\<newline>'';
          s = s @ ''  inline static Buffer read(Buffer buffer, '' @ cpp_msg @ ''& m);\<newline>'';
          s = s @ ''  inline static uint32_t serializedLength(const '' @ cpp_msg @ ''& m);\<newline>'';
          s = s @ ''};\<newline>'';
          s = s @ ''} // namespace serialization\<newline>''
      in s @ ''} // namespace ros\<newline>\<newline>'')"

text \<open>The three loops of \<^verbatim>\<open>write_serialization_bodies\<close> differ in the statement they write
  for a field: \<open>stmt_pre\<close> before its name and \<^verbatim>\<open>);\<close> after.\<close>

fun write_serialization_loop ::
  "string \<Rightarrow> string \<Rightarrow> (string \<times> string) list \<Rightarrow> string" where
  "write_serialization_loop stmt_pre s [] = s"
| "write_serialization_loop stmt_pre s ((type, name) # fs) =
     write_serialization_loop stmt_pre (s @ stmt_pre @ name @ '');\<newline>'') fs"

definition write_serialization_bodies ::
  "string \<Rightarrow> msgspec \<Rightarrow> string \<Rightarrow> string \<Rightarrow> string" where
  "write_serialization_bodies s spec pkg msg =
     (let cpp_msg = pkg @ ''::'' @ msg;
          s = s @ ''namespace ros\<newline>{\<newline>'';
          s = s @ ''namespace serialization\<newline>{\<newline>\<newline>'';
          s = s @ ''inline Buffer Serializer<'' @ cpp_msg @ ''>::write(Buffer buffer, const ''
                @ cpp_msg @ ''& m)\<newline>{\<newline>'';
          s = write_serialization_loop ''  buffer = serialize(buffer, m.'' s (spec_fields spec);
          s = s @ ''  return buffer;\<newline>}\<newline>\<newline>'';
          s = s @ ''inline Buffer Serializer<'' @ cpp_msg @ ''>::read(Buffer buffer, ''
                @ cpp_msg @ ''& m)\<newline>{\<newline>'';
          s = write_serialization_loop ''  buffer = deserialize(buffer, m.'' s (spec_fields spec);
          s = s @ ''  return buffer;\<newline>}\<newline>\<newline>'';
          s = s @ ''inline uint32_t Serializer<'' @ cpp_msg @ ''>::serializedLength(const ''
                @ cpp_msg @ ''& m)\<newline>{\<newline>'';
          s = s @ ''  uint32_t size = 0;\<newline>'';
          s = write_serialization_loop ''  size += serializationLength(m.'' s (spec_fields spec);
          s = s @ ''  return size;\<newline>}\<newline>\<newline>'';
          s = s @ ''} // namespace serialization\<newline>''
      in s @ ''} // namespace ros\<newline>\<newline>'')"

subsection \<open>The generator\<close>

text \<open>
  \<^verbatim>\<open>generate\<close> returns the file it writes: its path and its content, which
  \<^verbatim>\<open>print >> f\<close> ends with a newline. Creating the directory and opening the file are not
  modelled.
\<close>

definition generate ::
  "nat \<Rightarrow> roslib \<Rightarrow> 'd gentools \<Rightarrow> string \<Rightarrow> (error + string \<times> string) option" where
  "generate n r g msg_path =
     (case get_dir_pkg g msg_path of
        Inl e \<Rightarrow> Some (Inl e)
      | Inr (package_dir, package) \<Rightarrow>
          (case load_from_file g msg_path of
             Inl e \<Rightarrow> Some (Inl e)
           | Inr (name, spec) \<Rightarrow>
               (let s = [];
                    s = write_begin s package name msg_path;
                    s = write_includes r s spec;
                    s = s @ ''namespace '' @ package @ '' { struct '' @ name @ ''; }\<newline>\<newline>'';
                    s = write_traits_declarations s spec package name;
                    s = write_serialization_declarations s spec package name;
                    s = s @ ''namespace '' @ package @ ''\<newline>{\<newline>''
                in case write_struct r s spec package name of
                     Inl e \<Rightarrow> Some (Inl e)
                   | Inr s \<Rightarrow>
                       (let s = write_struct_bodies s spec package name;
                            s = s @ ''} // namespace '' @ package @ ''\<newline>\<newline>''
                        in case write_traits_bodies n r g s spec package name of
                             None \<Rightarrow> None
                           | Some (Inl e) \<Rightarrow> Some (Inl e)
                           | Some (Inr s) \<Rightarrow>
                               (let s = write_serialization_bodies s spec package name;
                                    s = write_end s package name;
                                    output_dir = package_dir @ ''/msg/cpp/'' @ package
                                in Some (Inr (output_dir @ ''/'' @ name @ ''.h'',
                                              s @ ''\<newline>'')))))))"

subsection \<open>Specification-side definitions\<close>

text \<open>The include guard of a schema: the upper-cased \<^verbatim>\<open><PACKAGE>_<NAME>_H\<close>.\<close>

definition guard_macro :: "string \<Rightarrow> string \<Rightarrow> string" where
  "guard_macro pkg msg = upper pkg @ ''_'' @ upper msg @ ''_H''"

text \<open>Python iterates over \<^verbatim>\<open>set(types)\<close> once through each element of the list.\<close>

definition set_iter_ok :: "roslib \<Rightarrow> bool" where
  "set_iter_ok r = (\<forall>types. set (set_iter r types) = set types \<and> distinct (set_iter r types))"

text \<open>The digest of a schema as the generator reads it: the hash and the definition text.\<close>

definition digest_of :: "'d gentools \<Rightarrow> msgspec \<Rightarrow> string \<Rightarrow> error + string \<times> string" where
  "digest_of g spec pkg =
     (case get_dependencies g spec pkg of
        Inl e \<Rightarrow> Inl e
      | Inr d \<Rightarrow> Inr (compute_md5 g d, compute_full_text g d))"

text \<open>What the documentation of \<^verbatim>\<open>compute_full_text_escaped\<close> asks for: every line of the
  definition in its own literal, with its backslashes and double quotes escaped.\<close>

definition compute_full_text_escaped_spec :: "'d gentools \<Rightarrow> 'd \<Rightarrow> string" where
  "compute_full_text_escaped_spec g gen_deps_dict =
     concat (map (\<lambda>line. [dquote]
                    @ replace dquote [backslash, dquote]
                        (replace backslash [backslash, backslash] line)
                    @ [backslash, CHR ''n'', dquote, newline])
               (split newline (compute_full_text g gen_deps_dict)))"

text \<open>The kinds that \<open>write_constant\<close> accepts.\<close>

definition numeric_kinds :: "string list" where
  "numeric_kinds = [''byte'', ''char'', ''int8'', ''uint8'', ''int16'', ''uint16'',
     ''int32'', ''uint32'', ''int64'', ''uint64'', ''float32'', ''float64'']"

text \<open>The include line of a base type that is not builtin, and the base types of the fields
  of a schema, in the order of the fields.\<close>

definition include_line :: "roslib \<Rightarrow> string \<Rightarrow> string" where
  \<open>include_line r base_type =
     (if is_header_type r base_type then ''#include "roslib/Header.h"\<newline>''
      else ''#include "'' @ base_type @ ''.h"\<newline>'')\<close>

definition base_types :: "roslib \<Rightarrow> msgspec \<Rightarrow> string list" where
  "base_types r spec = map (\<lambda>(type, name). fst (parse_type r type)) (spec_fields spec)"

text \<open>The fields that are not arrays, as pairs of base type and name, and the initializer
  list over them: the first entry after a colon, the later ones after a comma.\<close>

definition non_array_fields :: "roslib \<Rightarrow> msgspec \<Rightarrow> (string \<times> string) list" where
  "non_array_fields r spec =
     map (\<lambda>(type, name). (fst (parse_type r type), name))
       (filter (\<lambda>(type, name). \<not> fst (snd (parse_type r type))) (spec_fields spec))"

definition initializer :: "string \<times> string \<Rightarrow> string" where
  "initializer f = ''  '' @ snd f @ ''('' @ default_value (fst f) @ '')\<newline>''"

definition initializer_list :: "(string \<times> string) list \<Rightarrow> string" where
  "initializer_list fs =
     (case fs of
        [] \<Rightarrow> []
      | f # fs \<Rightarrow> ''  : '' @ initializer f @ concat (map (\<lambda>f. ''  , '' @ initializer f) fs))"

text \<open>The base type of a field type, whether it is a variable-length array, and the package
  in which \<open>is_fixed_length\<close> looks a base type up: its own, or the owning package.\<close>

definition base_type_of :: "roslib \<Rightarrow> string \<Rightarrow> string" where
  "base_type_of r type = fst (parse_type r type)"

definition is_variable_array :: "roslib \<Rightarrow> string \<Rightarrow> bool" where
  "is_variable_array r type =
     (case parse_type r type of (base_type, is_array, array_len) \<Rightarrow> is_array \<and> array_len = None)"

definition resolve_package :: "roslib \<Rightarrow> string \<Rightarrow> string \<Rightarrow> string" where
  "resolve_package r package type =
     (case package_resource_name r type of (pkg, name) \<Rightarrow> if pkg = [] then package else pkg)"

text \<open>Every composite base type that is reached resolves, and the schemas reached this way
  form no cycle: the derivation is a finite tree.\<close>

inductive resolvable :: "roslib \<Rightarrow> msgspec \<Rightarrow> string \<Rightarrow> bool" for r :: roslib where
  "(\<And>type name. (type, name) \<in> set (spec_fields spec) \<Longrightarrow>
       \<not> is_builtin r (base_type_of r type) \<Longrightarrow>
       \<exists>new_spec.
         load_by_type r (base_type_of r type) (resolve_package r package (base_type_of r type))
           = Inr new_spec
         \<and> resolvable r new_spec (resolve_package r package (base_type_of r type)))
   \<Longrightarrow> resolvable r spec package"

text \<open>Fixed length, in the words of the specification: no field is a variable-length array,
  no field has the base type \<^verbatim>\<open>string\<close>, and the schema of every composite base type is
  itself of fixed length.\<close>

inductive fixed_length_spec :: "roslib \<Rightarrow> msgspec \<Rightarrow> string \<Rightarrow> bool" for r :: roslib where
  "(\<And>type name. (type, name) \<in> set (spec_fields spec) \<Longrightarrow> \<not> is_variable_array r type) \<Longrightarrow>
   (\<And>type name. (type, name) \<in> set (spec_fields spec) \<Longrightarrow> base_type_of r type \<noteq> ''string'') \<Longrightarrow>
   (\<And>type name. (type, name) \<in> set (spec_fields spec) \<Longrightarrow>
       \<not> is_builtin r (base_type_of r type) \<Longrightarrow>
       \<exists>new_spec.
         load_by_type r (base_type_of r type) (resolve_package r package (base_type_of r type))
           = Inr new_spec
         \<and> fixed_length_spec r new_spec (resolve_package r package (base_type_of r type)))
   \<Longrightarrow> fixed_length_spec r spec package"

text \<open>What the second loop of \<open>is_fixed_length\<close> computes for one type, and what the
  specification asks of it.\<close>

definition nested :: "nat \<Rightarrow> roslib \<Rightarrow> string \<Rightarrow> string \<Rightarrow> (error + bool) option" where
  "nested n r package type =
     (case load_by_type r type (resolve_package r package type) of
        Inl e \<Rightarrow> Some (Inl e)
      | Inr new_spec \<Rightarrow> is_fixed_length n r new_spec (resolve_package r package type))"

definition nested_fixed_spec :: "roslib \<Rightarrow> string \<Rightarrow> string \<Rightarrow> bool" where
  "nested_fixed_spec r package t =
     (\<exists>new_spec. load_by_type r t (resolve_package r package t) = Inr new_spec
        \<and> fixed_length_spec r new_spec (resolve_package r package t))"


subsection \<open>Example collaborators\<close>

text \<open>
  An instance of the collaborators on which the model is evaluated: the builtin names are
  the keys of \<open>MSG_TYPE_TO_CPP\<close>, the header type is \<^verbatim>\<open>Header\<close> or \<^verbatim>\<open>roslib/Header\<close>, a type
  is a base type followed by nothing, by \<^verbatim>\<open>[]\<close> or by \<^verbatim>\<open>[n]\<close>, schemas are looked up in a
  table by package and name, and a set is iterated in the order of the first insertions.
\<close>

fun ex_set_iter :: "string list \<Rightarrow> string list" where
  "ex_set_iter [] = []"
| "ex_set_iter (t # ts) = t # filter (\<lambda>u. u \<noteq> t) (ex_set_iter ts)"

definition ex_is_builtin :: "string \<Rightarrow> bool" where
  "ex_is_builtin t = (t \<in> set [''int8'', ''uint8'', ''int16'', ''uint16'', ''int32'', ''uint32'',
     ''int64'', ''uint64'', ''float32'', ''float64'', ''string'', ''bool'', ''char'', ''byte'',
     ''time'', ''duration''])"

definition ex_is_header_type :: "string \<Rightarrow> bool" where
  "ex_is_header_type t = (t \<in> set [''Header'', ''roslib/Header''])"

definition ex_digits :: "string \<Rightarrow> int" where
  "ex_digits ds = foldl (\<lambda>a c. 10 * a + (int (of_char c) - 48)) 0 ds"

definition ex_parse_type :: "string \<Rightarrow> string \<times> bool \<times> int option" where
  "ex_parse_type t =
     (if CHR ''['' \<notin> set t then (t, False, None)
      else if drop (length t - 2) t = ''[]'' then (take (length t - 2) t, True, None)
      else (takeWhile (\<lambda>c. c \<noteq> CHR ''['') t, True,
            Some (ex_digits (butlast (tl (dropWhile (\<lambda>c. c \<noteq> CHR ''['') t))))))"

definition ex_package_resource_name :: "string \<Rightarrow> string \<times> string" where
  "ex_package_resource_name t =
     (case split CHR ''/'' t of
        pkg # name # _ \<Rightarrow> (pkg, name)
      | _ \<Rightarrow> ([], t))"

definition ex_load_by_type ::
  "((string \<times> string) \<times> msgspec) list \<Rightarrow> string \<Rightarrow> string \<Rightarrow> error + msgspec" where
  "ex_load_by_type repo t package_context =
     (case ex_package_resource_name t of
        (pkg, name) \<Rightarrow>
          (case map_of repo (if pkg = [] then package_context else pkg, name) of
             None \<Rightarrow> Inl (MsgSpecException t)
           | Some spec \<Rightarrow> Inr spec))"

definition ex_roslib :: "((string \<times> string) \<times> msgspec) list \<Rightarrow> roslib" where
  "ex_roslib repo =
     \<lparr>parse_type = ex_parse_type, is_builtin = ex_is_builtin,
      is_header_type = ex_is_header_type, package_resource_name = ex_package_resource_name,
      load_by_type = ex_load_by_type repo, set_iter = ex_set_iter\<rparr>"

text \<open>A run that knows one schema file and its digest, the pair of the hash and the
  definition text.\<close>

definition ex_gentools ::
  "string \<Rightarrow> string \<Rightarrow> string \<Rightarrow> string \<Rightarrow> msgspec \<Rightarrow> string \<times> string
     \<Rightarrow> (string \<times> string) gentools" where
  "ex_gentools msg_path package_dir package name spec digest =
     \<lparr>get_dir_pkg = (\<lambda>p. if p = msg_path then Inr (package_dir, package)
                           else Inl (GenException p)),
      load_from_file = (\<lambda>p. if p = msg_path then Inr (name, spec) else Inl (MsgSpecException p)),
      get_dependencies = (\<lambda>sp pkg. Inr digest),
      compute_md5 = fst, compute_full_text = snd\<rparr>"

text \<open>Examples on which the model is evaluated.\<close>

definition ex_quoted_digest :: "string \<times> string" where
  "ex_quoted_digest =
     (''d41d8cd98f00b204e9800998ecf8427e'', ''int32 x # '' @ [dquote] @ ''m'' @ [dquote])"

definition ex_quoted :: "(string \<times> string) gentools" where
  "ex_quoted = ex_gentools ''Quoted.msg'' ''/ros/pkg'' ''pkg'' ''Quoted''
     \<lparr>spec_fields = [(''int32'', ''x'')], constants = [], has_header = False\<rparr>
     ex_quoted_digest"

definition ex_two_points :: msgspec where
  "ex_two_points =
     \<lparr>spec_fields = [(''geometry_msgs/Point'', ''a''), (''geometry_msgs/Point'', ''b'')],
      constants = [], has_header = False\<rparr>"

definition ex_string_field :: msgspec where
  "ex_string_field =
     \<lparr>spec_fields = [(''string'', ''data'')], constants = [], has_header = False\<rparr>"

text \<open>Schemas with nested types, and the table in which they are looked up.\<close>

definition ex_point :: msgspec where
  "ex_point = \<lparr>spec_fields = [(''float64'', ''x''), (''float64'', ''y''), (''float64'', ''z'')],
                constants = [], has_header = False\<rparr>"

definition ex_stamp :: msgspec where
  "ex_stamp = \<lparr>spec_fields = [(''time'', ''stamp''), (''string'', ''frame_id'')],
                constants = [], has_header = False\<rparr>"

definition ex_repo :: "((string \<times> string) \<times> msgspec) list" where
  "ex_repo = [((''geometry_msgs'', ''Point''), ex_point), ((''nav'', ''Stamp''), ex_stamp)]"

definition ex_segment :: msgspec where
  "ex_segment =
     \<lparr>spec_fields = [(''geometry_msgs/Point'', ''start''), (''int32'', ''id''),
                     (''geometry_msgs/Point'', ''end'')],
      constants = [], has_header = False\<rparr>"

definition ex_stamped_point :: msgspec where
  "ex_stamped_point =
     \<lparr>spec_fields = [(''Stamp'', ''stamp''), (''geometry_msgs/Point'', ''point'')],
      constants = [], has_header = False\<rparr>"

text \<open>A run on a schema with two composite fields, of which the first is not of fixed
  length.\<close>

definition ex_run :: "(string \<times> string) gentools" where
  "ex_run = ex_gentools ''msg/StampedPoint.msg'' ''/ros/nav'' ''nav'' ''StampedPoint''
     ex_stamped_point
     (''d41d8cd98f00b204e9800998ecf8427e'', ''Stamp stamp\<newline>geometry_msgs/Point point'')"



definition ex_one :: msgspec where
  "ex_one = \<lparr>spec_fields = [(''int32'', ''x'')], constants = [], has_header = False\<rparr>"

definition ex_one_digest :: "string \<times> string" where
  "ex_one_digest = (''d41d8cd98f00b204e9800998ecf8427e'', ''int32 x'')"

definition ex_one_run :: "string \<Rightarrow> (string \<times> string) gentools" where
  "ex_one_run msg_path = ex_gentools msg_path ''/ros/p'' ''p'' ''One'' ex_one ex_one_digest"

section \<open>Properties\<close>

subsection \<open>Helper lemmas\<close>

lemma of_char_lt: "(of_char c :: nat) < 256"
  by (cases c) simp

lemma upper_lower_char: "upper_char (lower_char c) = upper_char c"
proof (cases "65 \<le> (of_char c :: nat) \<and> (of_char c :: nat) \<le> 90")
  case True
  then have "(of_char (char_of (of_char c + 32 :: nat)) :: nat) = of_char c + 32"
    by simp
  with True show ?thesis
    by (simp add: upper_char_def lower_char_def Let_def)
next
  case False
  then show ?thesis by (simp add: upper_char_def lower_char_def Let_def)
qed

lemma lower_eq_upper_eq: "lower a = lower b \<Longrightarrow> upper a = upper b"
proof -
  assume h: "lower a = lower b"
  have "upper a = upper (lower a)" by (simp add: upper_def lower_def upper_lower_char)
  also have "\<dots> = upper (lower b)" using h by simp
  also have "\<dots> = upper b" by (simp add: upper_def lower_def upper_lower_char)
  finally show ?thesis .
qed

lemma write_serialization_loop_eq:
  "write_serialization_loop stmt_pre s fs =
     s @ concat (map (\<lambda>(type, name). stmt_pre @ name @ '');\<newline>'') fs)"
  by (induction fs arbitrary: s) auto

lemma compute_full_text_escaped_loop_eq: "compute_full_text_escaped_loop s lines =
   s @ concat (map (\<lambda>line. [dquote] @ line @ [backslash, CHR ''n'', dquote, newline]) lines)"
  by (induction lines arbitrary: s) (auto simp: Let_def)

lemma compute_full_text_escaped_eq: "compute_full_text_escaped g d =
   concat (map (\<lambda>line. [dquote] @ line @ [backslash, CHR ''n'', dquote, newline])
               (split newline (compute_full_text g d)))"
  by (simp add: compute_full_text_escaped_def Let_def compute_full_text_escaped_loop_eq)

lemma split_not_Nil: "split sep s \<noteq> []"
  by (induction s) (auto split: list.splits)

lemma split_no_sep: "sep \<notin> set s \<Longrightarrow> split sep s = [s]"
  by (induction s) auto

lemma split_at_sep: "sep \<notin> set a \<Longrightarrow> split sep (a @ sep # b) = a # split sep b"
  by (induction a) auto

lemma length_split_one: "length (split sep s) = Suc 0 \<longleftrightarrow> sep \<notin> set s"
proof (induction s)
  case Nil
  then show ?case by simp
next
  case (Cons c cs)
  show ?case
  proof (cases "c = sep")
    case True
    then show ?thesis using split_not_Nil [of sep cs] by simp
  next
    case False
    then show ?thesis using Cons split_not_Nil [of sep cs]
      by (auto split: list.splits)
  qed
qed

lemma split_two: "sep \<in> set s \<Longrightarrow> \<exists>a b rest. split sep s = a # b # rest"
  using length_split_one [of sep s] split_not_Nil [of sep s]
  by (cases "split sep s"; cases "tl (split sep s)") auto

lemma write_includes_loop_eq:
  "write_includes_loop r s fs =
     s @ concat (map (include_line r)
                   (filter (\<lambda>b. \<not> is_builtin r b) (map (\<lambda>(type, name). fst (parse_type r type)) fs)))"
  by (induction fs arbitrary: s) (auto simp: include_line_def split: prod.splits)

lemma write_constructor_inits_later:
  "i > 0 \<Longrightarrow> write_constructor_inits r s i fs =
     s @ concat (map (\<lambda>f. ''  , '' @ initializer f)
       (map (\<lambda>(type, name). (fst (parse_type r type), name))
       (filter (\<lambda>(type, name). \<not> fst (snd (parse_type r type))) fs)))"
  by (induction fs arbitrary: s i) (auto simp: initializer_def Let_def split: prod.splits)

lemma write_constructor_inits_first:
  "write_constructor_inits r s 0 fs =
     s @ initializer_list
       (map (\<lambda>(type, name). (fst (parse_type r type), name))
       (filter (\<lambda>(type, name). \<not> fst (snd (parse_type r type))) fs))"
proof (induction fs arbitrary: s)
  case Nil
  then show ?case by (simp add: initializer_list_def)
next
  case (Cons f fs)
  obtain type name where f: "f = (type, name)" by (cases f)
  obtain b a l where p: "parse_type r type = (b, a, l)" by (cases "parse_type r type")
  show ?case
  proof (cases a)
    case True
    with f p Cons show ?thesis by simp
  next
    case False
    with f p show ?thesis
      by (simp add: Let_def write_constructor_inits_later initializer_list_def initializer_def)
  qed
qed

lemma write_constructor_assigns_append:
  "write_constructor_assigns r s fs = s @ write_constructor_assigns r [] fs"
proof (induction fs arbitrary: s)
  case Nil
  then show ?case by simp
next
  case (Cons f fs)
  obtain type name where f: "f = (type, name)" by (cases f)
  obtain b a l where p: "parse_type r type = (b, a, l)" by (cases "parse_type r type")
  show ?case
    using Cons [of s] Cons [of "s @ ''    '' @ name @ ''.assign('' @ default_value b @ '');\<newline>''"]
      Cons [of "''    '' @ name @ ''.assign('' @ default_value b @ '');\<newline>''"]
    by (simp add: f p Let_def)
qed

subsection \<open>Include guard\<close>

text \<open>
  C10. The guard opened by \<open>write_begin\<close> and closed by \<open>write_end\<close> is the upper-cased
  \<^verbatim>\<open><PACKAGE>_<NAME>_H\<close>; two schemas whose packages and names differ only in letter case
  get the same guard, and the same guard lines.
\<close>

theorem include_guard_uppercase:
  "write_begin s pkg msg file =
     s @ ''/* Auto-generated by genmsg_cpp for file '' @ file @ '' */\<newline>''
       @ ''#ifndef '' @ guard_macro pkg msg @ ''\<newline>''
       @ ''#define '' @ guard_macro pkg msg @ ''\<newline>''
   \<and> write_end s pkg msg = s @ ''#endif // '' @ guard_macro pkg msg @ ''\<newline>''
   \<and> (lower pkg = lower pkg' \<and> lower msg = lower msg' \<longrightarrow>
        guard_macro pkg msg = guard_macro pkg' msg'
        \<and> write_begin s pkg msg file = write_begin s pkg' msg' file
        \<and> write_end s pkg msg = write_end s pkg' msg')"
proof -
  have "lower pkg = lower pkg' \<and> lower msg = lower msg' \<longrightarrow>
        guard_macro pkg msg = guard_macro pkg' msg'"
    using lower_eq_upper_eq [of pkg pkg'] lower_eq_upper_eq [of msg msg']
    by (simp add: guard_macro_def)
  moreover have "write_begin s pkg msg file =
     s @ ''/* Auto-generated by genmsg_cpp for file '' @ file @ '' */\<newline>''
       @ ''#ifndef '' @ guard_macro pkg msg @ ''\<newline>''
       @ ''#define '' @ guard_macro pkg msg @ ''\<newline>''" for pkg msg
    by (simp add: write_begin_def guard_macro_def Let_def)
  moreover have "write_end s pkg msg = s @ ''#endif // '' @ guard_macro pkg msg @ ''\<newline>''"
    for pkg msg
    by (simp add: write_end_def guard_macro_def)
  ultimately show ?thesis by simp
qed

theorem include_guard_uppercase_witness:
  "lower ''std_msgs'' = lower ''Std_Msgs'' \<and> lower ''String'' = lower ''string''
   \<and> guard_macro ''std_msgs'' ''String'' = ''STD_MSGS_STRING_H''
   \<and> guard_macro ''std_msgs'' ''String'' = guard_macro ''Std_Msgs'' ''string''
   \<and> write_begin [] ''std_msgs'' ''String'' ''String.msg''
      = write_begin [] ''Std_Msgs'' ''string'' ''String.msg''
   \<and> write_end [] ''std_msgs'' ''String'' = write_end [] ''Std_Msgs'' ''string''"
proof -
  have l: "lower ''std_msgs'' = lower ''Std_Msgs'' \<and> lower ''String'' = lower ''string''"
    by code_simp
  have g: "guard_macro ''std_msgs'' ''String'' = ''STD_MSGS_STRING_H''"
    by code_simp
  note t = include_guard_uppercase
      [of "[]" "''std_msgs''" "''String''" "''String.msg''" "''Std_Msgs''" "''string''"]
  from t l have "guard_macro ''std_msgs'' ''String'' = guard_macro ''Std_Msgs'' ''string''
    \<and> write_begin [] ''std_msgs'' ''String'' ''String.msg''
      = write_begin [] ''Std_Msgs'' ''string'' ''String.msg''
    \<and> write_end [] ''std_msgs'' ''String'' = write_end [] ''Std_Msgs'' ''string''"
    by blast
  with l g show ?thesis by blast
qed

subsection \<open>Serialization bodies\<close>

text \<open>
  C4. Each of the three routine bodies emitted by \<open>write_serialization_bodies\<close> holds one
  statement per field, in the declared order of the fields and nothing else between the
  opening of the routine and its return: \<^verbatim>\<open>write\<close> and \<^verbatim>\<open>read\<close> assign the result of each
  call to the buffer and return the buffer, \<^verbatim>\<open>serializedLength\<close> starts the size at zero,
  adds the length of every field and returns the size.
\<close>

theorem write_serialization_bodies_field_order:
  "write_serialization_bodies s spec pkg msg =
     s @ ''namespace ros\<newline>{\<newline>''
       @ ''namespace serialization\<newline>{\<newline>\<newline>''
       @ ''inline Buffer Serializer<'' @ pkg @ ''::'' @ msg @ ''>::write(Buffer buffer, const ''
       @ pkg @ ''::'' @ msg @ ''& m)\<newline>{\<newline>''
       @ concat (map (\<lambda>(type, name). ''  buffer = serialize(buffer, m.'' @ name @ '');\<newline>'')
                   (spec_fields spec))
       @ ''  return buffer;\<newline>}\<newline>\<newline>''
       @ ''inline Buffer Serializer<'' @ pkg @ ''::'' @ msg @ ''>::read(Buffer buffer, ''
       @ pkg @ ''::'' @ msg @ ''& m)\<newline>{\<newline>''
       @ concat (map (\<lambda>(type, name). ''  buffer = deserialize(buffer, m.'' @ name @ '');\<newline>'')
                   (spec_fields spec))
       @ ''  return buffer;\<newline>}\<newline>\<newline>''
       @ ''inline uint32_t Serializer<'' @ pkg @ ''::'' @ msg @ ''>::serializedLength(const ''
       @ pkg @ ''::'' @ msg @ ''& m)\<newline>{\<newline>''
       @ ''  uint32_t size = 0;\<newline>''
       @ concat (map (\<lambda>(type, name). ''  size += serializationLength(m.'' @ name @ '');\<newline>'')
                   (spec_fields spec))
       @ ''  return size;\<newline>}\<newline>\<newline>''
       @ ''} // namespace serialization\<newline>''
       @ ''} // namespace ros\<newline>\<newline>''"
  by (simp add: write_serialization_bodies_def Let_def write_serialization_loop_eq)

subsection \<open>Escaping of the definition text\<close>

text \<open>
  C1. \<open>compute_full_text_escaped\<close> is documented to escape the text for C++ double quotes.
  On the definition \<^verbatim>\<open>int32 x # "m"\<close> the code returns the line between double quotes with
  its own double quotes as they are, where the escaped text has a backslash before each.
\<close>

theorem compute_full_text_escaped_keeps_quotes:
  "compute_full_text_escaped ex_quoted ex_quoted_digest
     = [dquote] @ ''int32 x # '' @ [dquote] @ ''m'' @ [dquote]
         @ [backslash, CHR ''n'', dquote, newline]
   \<and> compute_full_text_escaped_spec ex_quoted ex_quoted_digest
     = [dquote] @ ''int32 x # '' @ [backslash, dquote] @ ''m'' @ [backslash, dquote]
         @ [backslash, CHR ''n'', dquote, newline]"
  by (simp add: compute_full_text_escaped_eq compute_full_text_escaped_spec_def ex_quoted_def
      ex_quoted_digest_def ex_gentools_def replace_def dquote_def backslash_def newline_def)

subsection \<open>Constants\<close>

text \<open>
  C2, as stated, fails: a constant of type \<^verbatim>\<open>bool\<close> is rejected.
\<close>

theorem write_constant_bool_rejected:
  "write_constant (ex_roslib []) []
     \<lparr>const_type = ''bool'', const_name = ''ENABLED'', const_val = ''1''\<rparr>
   = Inl (ValueError ''bool not supported as a constant'')"
  by (simp add: write_constant_def)

text \<open>
  C2, amended. When the collaborators take the numeric kinds for scalar builtins,
  \<open>write_constant\<close> raises if and only if the type of the constant is not one of the twelve
  numeric kinds (the integers, \<^verbatim>\<open>byte\<close>, \<^verbatim>\<open>char\<close> and the two floats); a constant of a
  numeric kind is written as a \<^verbatim>\<open>static const\<close> binding of the mapped type to the value.
\<close>

theorem write_constant_raises_iff:
  assumes "\<forall>t \<in> set numeric_kinds. parse_type r t = (t, False, None) \<and> is_builtin r t"
  shows "((\<exists>e. write_constant r s c = Inl e) \<longleftrightarrow> const_type c \<notin> set numeric_kinds)
    \<and> (const_type c \<in> set numeric_kinds \<longrightarrow>
         (\<exists>cpp_type. MSG_TYPE_TO_CPP (const_type c) = Some cpp_type
            \<and> write_constant r s c =
                Inr (s @ ''  static const '' @ cpp_type @ '' '' @ const_name c @ '' = ''
                       @ const_val c @ '';\<newline>'')))"
proof (cases "const_type c \<in> set numeric_kinds")
  case False
  then show ?thesis by (auto simp: write_constant_def numeric_kinds_def)
next
  case True
  with assms have p: "parse_type r (const_type c) = (const_type c, False, None)"
    and b: "is_builtin r (const_type c)" by auto
  from True obtain cpp_type where m: "MSG_TYPE_TO_CPP (const_type c) = Some cpp_type"
    by (auto simp: numeric_kinds_def MSG_TYPE_TO_CPP_def)
  from p b m have "msg_type_to_cpp r (const_type c) = Inr cpp_type"
    by (simp add: msg_type_to_cpp_def)
  with True m show ?thesis
    by (auto simp: write_constant_def numeric_kinds_def)
qed

theorem write_constant_raises_iff_witness:
  "list_all (\<lambda>t. parse_type (ex_roslib []) t = (t, False, None) \<and> is_builtin (ex_roslib []) t)
     numeric_kinds
   \<and> write_constant (ex_roslib []) []
        \<lparr>const_type = ''int32'', const_name = ''MAX'', const_val = ''5''\<rparr>
      = Inr ''  static const int32_t MAX = 5;\<newline>''
   \<and> (\<exists>e. write_constant (ex_roslib []) []
        \<lparr>const_type = ''string'', const_name = ''NAME'', const_val = ''a''\<rparr> = Inl e)"
proof -
  have h: "\<forall>t \<in> set numeric_kinds.
      parse_type (ex_roslib []) t = (t, False, None) \<and> is_builtin (ex_roslib []) t"
    by (simp add: numeric_kinds_def ex_roslib_def ex_parse_type_def ex_is_builtin_def)
  have m: "MSG_TYPE_TO_CPP ''int32'' = Some ''int32_t''"
    by (simp add: MSG_TYPE_TO_CPP_def)
  from write_constant_raises_iff [OF h, of "[]"
      "\<lparr>const_type = ''int32'', const_name = ''MAX'', const_val = ''5''\<rparr>"] m
  have a: "write_constant (ex_roslib []) []
        \<lparr>const_type = ''int32'', const_name = ''MAX'', const_val = ''5''\<rparr>
      = Inr ''  static const int32_t MAX = 5;\<newline>''"
    by (simp add: numeric_kinds_def)
  from write_constant_raises_iff [OF h, of "[]"
      "\<lparr>const_type = ''string'', const_name = ''NAME'', const_val = ''a''\<rparr>"]
  have b: "\<exists>e. write_constant (ex_roslib []) []
        \<lparr>const_type = ''string'', const_name = ''NAME'', const_val = ''a''\<rparr> = Inl e"
    by (simp add: numeric_kinds_def)
  from h a b show ?thesis by (simp add: list_all_iff)
qed

subsection \<open>Type mapping\<close>

text \<open>
  C8, as stated, fails: a name without a package that is not the header type is mapped to
  itself, not to a qualified expression.
\<close>

theorem msg_type_to_cpp_bare_name:
  "msg_type_to_cpp (ex_roslib []) ''Pose'' = Inr ''Pose''"
  by (simp add: msg_type_to_cpp_def ex_roslib_def ex_parse_type_def ex_is_builtin_def
      ex_is_header_type_def)

text \<open>
  C8, amended. A type whose base type is not builtin is mapped without error: a base type
  \<^verbatim>\<open>pkg/msg\<close> to \<^verbatim>\<open>pkg::msg\<close>, a base type without \<^verbatim>\<open>/\<close> to \<^verbatim>\<open>roslib::Header\<close> when it is the
  header type and to itself otherwise; a variable array wraps the expression in
  \<^verbatim>\<open>std::vector\<close>, a fixed array of length \<open>n\<close> in \<^verbatim>\<open>boost::array\<close> with \<open>n\<close>, and a scalar
  leaves it as it is.
\<close>

theorem msg_type_to_cpp_composite:
  assumes "parse_type r type = (base_type, is_array, array_len)"
    and "\<not> is_builtin r base_type"
  shows "\<exists>cpp_type.
      msg_type_to_cpp r type =
        Inr (if is_array then
               (case array_len of
                  None \<Rightarrow> ''std::vector<'' @ cpp_type @ ''>''
                | Some n \<Rightarrow> ''boost::array<'' @ cpp_type @ '', '' @ str_int n @ ''>'')
             else cpp_type)
    \<and> (CHR ''/'' \<notin> set base_type \<longrightarrow>
         cpp_type = (if is_header_type r base_type then ''roslib::Header'' else base_type))
    \<and> (\<forall>pkg msg. base_type = pkg @ ''/'' @ msg \<and> CHR ''/'' \<notin> set pkg \<and> CHR ''/'' \<notin> set msg
         \<longrightarrow> cpp_type = pkg @ ''::'' @ msg)"
proof (cases "CHR ''/'' \<in> set base_type")
  case False
  then have "split CHR ''/'' base_type = [base_type]" by (rule split_no_sep)
  with assms False show ?thesis
    by (auto simp: msg_type_to_cpp_def split: option.splits)
next
  case True
  then obtain a b rest where s: "split CHR ''/'' base_type = a # b # rest"
    using split_two by blast
  have q: "a = pkg \<and> b = msg"
    if "base_type = pkg @ ''/'' @ msg" "CHR ''/'' \<notin> set pkg" "CHR ''/'' \<notin> set msg" for pkg msg
    using that s split_at_sep [of "CHR ''/''" pkg msg] split_no_sep [of "CHR ''/''" msg]
    by simp
  from assms s True have "msg_type_to_cpp r type =
        Inr (if is_array then
               (case array_len of
                  None \<Rightarrow> ''std::vector<'' @ (a @ ''::'' @ b) @ ''>''
                | Some n \<Rightarrow> ''boost::array<'' @ (a @ ''::'' @ b) @ '', '' @ str_int n @ ''>'')
             else (a @ ''::'' @ b))"
    by (auto simp: msg_type_to_cpp_def split: option.splits)
  with True q show ?thesis by blast
qed

theorem msg_type_to_cpp_composite_witness:
  "parse_type (ex_roslib []) ''geometry_msgs/Point[4]'' = (''geometry_msgs/Point'', True, Some 4)
   \<and> \<not> is_builtin (ex_roslib []) ''geometry_msgs/Point''
   \<and> msg_type_to_cpp (ex_roslib []) ''geometry_msgs/Point[4]''
       = Inr ''boost::array<geometry_msgs::Point, 4>''"
proof -
  have p: "parse_type (ex_roslib []) ''geometry_msgs/Point[4]''
             = (''geometry_msgs/Point'', True, Some 4)"
    by code_simp
  have b: "\<not> is_builtin (ex_roslib []) ''geometry_msgs/Point''"
    by code_simp
  have n: "str_int 4 = ''4''"
    by code_simp
  from msg_type_to_cpp_composite [OF p b] obtain cpp_type where
    m: "msg_type_to_cpp (ex_roslib []) ''geometry_msgs/Point[4]''
          = Inr (''boost::array<'' @ cpp_type @ '', '' @ str_int 4 @ ''>'')"
    and q: "\<forall>pkg msg. ''geometry_msgs/Point'' = pkg @ ''/'' @ msg \<and> CHR ''/'' \<notin> set pkg
              \<and> CHR ''/'' \<notin> set msg \<longrightarrow> cpp_type = pkg @ ''::'' @ msg"
    by auto
  from q [rule_format, of "''geometry_msgs''" "''Point''"]
  have "cpp_type = ''geometry_msgs::Point''" by simp
  with m n p b show ?thesis by simp
qed

subsection \<open>Includes\<close>

text \<open>
  C7, as stated, fails: two fields of the type \<^verbatim>\<open>geometry_msgs/Point\<close> give two include
  lines for it.
\<close>

theorem write_includes_repeats:
  \<open>write_includes (ex_roslib []) [] ex_two_points =
     ''#include <string>\<newline>''
       @ ''#include <vector>\<newline>''
       @ ''#include "ros/serialization.h"\<newline>''
       @ ''#include "ros/builtin_message_traits.h"\<newline>''
       @ ''#include "ros/message.h"\<newline>''
       @ ''#include "ros/time.h"\<newline>\<newline>''
       @ ''#include "geometry_msgs/Point.h"\<newline>''
       @ ''#include "geometry_msgs/Point.h"\<newline>''
       @ ''\<newline>''\<close>
  by code_simp

text \<open>
  C7, amended. After the six fixed includes, \<open>write_includes\<close> writes one include line for
  every field whose base type is not builtin, in the order of the fields and with no
  deduplication; the line of the header type is the fixed \<^verbatim>\<open>roslib/Header.h\<close>, however the
  type was spelled.
\<close>

theorem write_includes_per_field:
  \<open>write_includes r s spec =
     s @ ''#include <string>\<newline>''
       @ ''#include <vector>\<newline>''
       @ ''#include "ros/serialization.h"\<newline>''
       @ ''#include "ros/builtin_message_traits.h"\<newline>''
       @ ''#include "ros/message.h"\<newline>''
       @ ''#include "ros/time.h"\<newline>\<newline>''
       @ concat (map (include_line r) (filter (\<lambda>b. \<not> is_builtin r b) (base_types r spec)))
       @ ''\<newline>''\<close>
  by (simp add: write_includes_def Let_def write_includes_loop_eq base_types_def)

subsection \<open>Constructor\<close>

text \<open>
  C6, as stated, fails: a field of type \<^verbatim>\<open>string\<close> gets the initializer \<^verbatim>\<open>data()\<close>.
\<close>

theorem write_constructor_string_initializer:
  "write_constructor (ex_roslib []) [] ''String'' ex_string_field =
     ''  String()\<newline>  :   data()\<newline>  {\<newline>  }\<newline>\<newline>''"
  by code_simp

text \<open>
  C6, amended. The constructor has one initializer for every field that is not an array, in
  the order of the fields: the name with, between parentheses, \<^verbatim>\<open>0\<close> for the integer kinds,
  \<^verbatim>\<open>0.0\<close> for the floats, \<^verbatim>\<open>false\<close> for \<^verbatim>\<open>bool\<close> and nothing for any other type.
\<close>

theorem write_constructor_initializers:
  "write_constructor r s msg spec =
     s @ ''  '' @ msg @ ''()\<newline>''
       @ initializer_list (non_array_fields r spec)
       @ ''  {\<newline>''
       @ write_constructor_assigns r [] (spec_fields spec)
       @ ''  }\<newline>\<newline>''
   \<and> (\<forall>t. default_value t =
          (if t \<in> set [''byte'', ''char'', ''int8'', ''uint8'', ''int16'', ''uint16'',
                        ''int32'', ''uint32'', ''int64'', ''uint64''] then ''0''
           else if t \<in> set [''float32'', ''float64''] then ''0.0''
           else if t = ''bool'' then ''false''
           else []))"
proof -
  have "write_constructor r s msg spec =
     s @ ''  '' @ msg @ ''()\<newline>''
       @ initializer_list (non_array_fields r spec)
       @ ''  {\<newline>''
       @ write_constructor_assigns r [] (spec_fields spec)
       @ ''  }\<newline>\<newline>''"
    unfolding write_constructor_def Let_def non_array_fields_def write_constructor_inits_first
    by (subst write_constructor_assigns_append) simp
  moreover have "\<forall>t. default_value t =
          (if t \<in> set [''byte'', ''char'', ''int8'', ''uint8'', ''int16'', ''uint16'',
                        ''int32'', ''uint32'', ''int64'', ''uint64''] then ''0''
           else if t \<in> set [''float32'', ''float64''] then ''0.0''
           else if t = ''bool'' then ''false''
           else [])"
    by (auto simp: default_value_def)
  ultimately show ?thesis by blast
qed

subsection \<open>Fixed-length analysis\<close>

lemma types_Cons:
  "is_fixed_length_types n r (type # ts) package =
     (case nested n r package type of
        None \<Rightarrow> None
      | Some (Inl e) \<Rightarrow> Some (Inl e)
      | Some (Inr fixed) \<Rightarrow>
          if \<not> fixed then Some (Inr False) else is_fixed_length_types n r ts package)"
  by (simp add: nested_def resolve_package_def Let_def split: prod.splits sum.splits)

lemma scan_eq:
  "is_fixed_length_scan r types fs =
     (if \<exists>f \<in> set fs. is_variable_array r (fst f) \<or> base_type_of r (fst f) = ''string''
      then None
      else Some (types @ filter (\<lambda>b. \<not> is_builtin r b) (map (\<lambda>f. base_type_of r (fst f)) fs)))"
proof (induction fs arbitrary: types)
  case Nil
  then show ?case by simp
next
  case (Cons f fs)
  obtain type name where f: "f = (type, name)" by (cases f)
  obtain b a l where p: "parse_type r type = (b, a, l)" by (cases "parse_type r type")
  have v: "is_variable_array r type = (a \<and> l = None)"
    by (simp add: is_variable_array_def p)
  have bt: "base_type_of r type = b"
    by (simp add: base_type_of_def p)
  show ?case
    by (simp add: f p v bt Cons.IH)
qed

lemma nested_mono:
  assumes "\<And>spec package x. is_fixed_length n r spec package = Some x
             \<Longrightarrow> is_fixed_length m r spec package = Some x"
    and "nested n r p t = Some y"
  shows "nested m r p t = Some y"
  using assms by (cases "load_by_type r t (resolve_package r p t)") (auto simp: nested_def)

lemma types_mono:
  assumes "\<And>spec package x. is_fixed_length n r spec package = Some x
             \<Longrightarrow> is_fixed_length m r spec package = Some x"
  shows "is_fixed_length_types n r ts p = Some x \<Longrightarrow> is_fixed_length_types m r ts p = Some x"
proof (induction ts)
  case Nil
  then show ?case by simp
next
  case (Cons t ts)
  from Cons.prems obtain y where y: "nested n r p t = Some y"
    by (cases "nested n r p t") (simp_all del: is_fixed_length_types.simps add: types_Cons)
  then have y': "nested m r p t = Some y"
    using assms nested_mono by blast
  show ?case
  proof (cases y)
    case (Inl e)
    with Cons.prems y y' show ?thesis
      by (auto simp del: is_fixed_length_types.simps simp add: types_Cons)
  next
    case (Inr fixed)
    with Cons.prems y y' Cons.IH show ?thesis
      by (cases fixed) (auto simp del: is_fixed_length_types.simps simp add: types_Cons)
  qed
qed

lemma fuel_Suc:
  "is_fixed_length n r spec package = Some x \<Longrightarrow> is_fixed_length (Suc n) r spec package = Some x"
proof (induction n arbitrary: spec package x)
  case 0
  then show ?case by simp
next
  case (Suc n)
  show ?case
  proof (cases "is_fixed_length_scan r [] (spec_fields spec)")
    case None
    with Suc.prems show ?thesis by simp
  next
    case (Some types)
    with Suc.prems have "is_fixed_length_types n r (set_iter r types) package = Some x"
      by simp
    then have "is_fixed_length_types (Suc n) r (set_iter r types) package = Some x"
      using types_mono [of n r "Suc n"] Suc.IH by blast
    with Some show ?thesis by simp
  qed
qed

lemma fuel_mono:
  "is_fixed_length n r spec package = Some x \<Longrightarrow> n \<le> m
     \<Longrightarrow> is_fixed_length m r spec package = Some x"
  by (induction m) (auto simp del: is_fixed_length.simps simp: le_Suc_eq fuel_Suc)


lemma types_all:
  assumes "\<forall>t \<in> set ts. \<exists>b. nested n r p t = Some (Inr b)"
  shows "is_fixed_length_types n r ts p
           = Some (Inr (\<forall>t \<in> set ts. nested n r p t = Some (Inr True)))"
  using assms
proof (induction ts)
  case Nil
  then show ?case by simp
next
  case (Cons t ts)
  then obtain b where b: "nested n r p t = Some (Inr b)" by auto
  from Cons have ih: "is_fixed_length_types n r ts p
           = Some (Inr (\<forall>t \<in> set ts. nested n r p t = Some (Inr True)))" by simp
  show ?case
    using b ih by (cases b) (auto simp del: is_fixed_length_types.simps simp add: types_Cons)
qed

lemma common_fuel:
  assumes "finite T" and "\<forall>t \<in> T. \<exists>n. \<forall>m\<ge>n. Q t (m::nat)"
  shows "\<exists>N. \<forall>t \<in> T. \<forall>m\<ge>N. Q t m"
  using assms
proof (induction T)
  case empty
  then show ?case by simp
next
  case (insert x T)
  then obtain N where N: "\<forall>t \<in> T. \<forall>m\<ge>N. Q t m" by auto
  from insert.prems obtain n where n: "\<forall>m\<ge>n. Q x m" by auto
  have "\<forall>t \<in> insert x T. \<forall>m\<ge>max n N. Q t m"
    using N n by auto
  then show ?case by blast
qed

lemma fixed_length_spec_iff:
  "fixed_length_spec r spec package \<longleftrightarrow>
     \<not> (\<exists>f \<in> set (spec_fields spec).
           is_variable_array r (fst f) \<or> base_type_of r (fst f) = ''string'')
     \<and> (\<forall>t \<in> set (filter (\<lambda>b. \<not> is_builtin r b)
                       (map (\<lambda>f. base_type_of r (fst f)) (spec_fields spec))).
           nested_fixed_spec r package t)"
  (is "?L \<longleftrightarrow> ?R")
proof
  assume ?L
  then show ?R
    by (cases rule: fixed_length_spec.cases) (fastforce simp: nested_fixed_spec_def)
next
  assume R: ?R
  show ?L
  proof (rule fixed_length_spec.intros)
    fix type name
    assume "(type, name) \<in> set (spec_fields spec)"
    with R show "\<not> is_variable_array r type" by force
  next
    fix type name
    assume "(type, name) \<in> set (spec_fields spec)"
    with R show "base_type_of r type \<noteq> ''string''" by force
  next
    fix type name
    assume f: "(type, name) \<in> set (spec_fields spec)"
      and nb: "\<not> is_builtin r (base_type_of r type)"
    from f nb have "base_type_of r type \<in> set (filter (\<lambda>b. \<not> is_builtin r b)
                       (map (\<lambda>f. base_type_of r (fst f)) (spec_fields spec)))"
      by force
    with R have "nested_fixed_spec r package (base_type_of r type)" by blast
    then show "\<exists>new_spec.
         load_by_type r (base_type_of r type) (resolve_package r package (base_type_of r type))
           = Inr new_spec
         \<and> fixed_length_spec r new_spec (resolve_package r package (base_type_of r type))"
      by (simp add: nested_fixed_spec_def)
  qed
qed


lemma scan_set_iter [simp]:
  "is_fixed_length_scan (r\<lparr>set_iter := order\<rparr>) types fs = is_fixed_length_scan r types fs"
  by (simp add: scan_eq is_variable_array_def base_type_of_def cong: if_cong)

lemma resolve_package_set_iter [simp]:
  "resolve_package (r\<lparr>set_iter := order\<rparr>) p t = resolve_package r p t"
  by (simp add: resolve_package_def)

lemma set_iter_self [simp]: "r\<lparr>set_iter := set_iter r\<rparr> = (r::roslib)"
  by (cases r) simp

lemma is_fixed_length_returns:
  assumes ok: "set_iter_ok (r\<lparr>set_iter := order\<rparr>)" and res: "resolvable r spec package"
  shows "\<exists>n. \<forall>m\<ge>n. is_fixed_length m (r\<lparr>set_iter := order\<rparr>) spec package
           = Some (Inr (fixed_length_spec r spec package))"
  using res
proof (induction rule: resolvable.induct)
  case (1 spec package)
  let ?r = "r\<lparr>set_iter := order\<rparr>"
  define types where "types = filter (\<lambda>b. \<not> is_builtin r b)
                       (map (\<lambda>f. base_type_of r (fst f)) (spec_fields spec))"
  define bad where "bad \<longleftrightarrow> (\<exists>f \<in> set (spec_fields spec).
           is_variable_array r (fst f) \<or> base_type_of r (fst f) = ''string'')"
  have each: "\<exists>n. \<forall>m\<ge>n. nested m ?r package t = Some (Inr (nested_fixed_spec r package t))"
    if t: "t \<in> set types" for t
  proof -
    from t obtain type name where f: "(type, name) \<in> set (spec_fields spec)"
      and bt: "base_type_of r type = t" and nb: "\<not> is_builtin r t"
      by (auto simp: types_def)
    from 1 [OF f] nb bt obtain new_spec n where
      l: "load_by_type r t (resolve_package r package t) = Inr new_spec"
      and n: "\<forall>m\<ge>n. is_fixed_length m ?r new_spec (resolve_package r package t)
                = Some (Inr (fixed_length_spec r new_spec (resolve_package r package t)))"
      by auto
    from l have "nested_fixed_spec r package t
        = fixed_length_spec r new_spec (resolve_package r package t)"
      by (simp add: nested_fixed_spec_def)
    with l n have "\<forall>m\<ge>n. nested m ?r package t = Some (Inr (nested_fixed_spec r package t))"
      by (simp add: nested_def)
    then show ?thesis ..
  qed
  have "finite (set types)" by simp
  then obtain N where N: "\<forall>t \<in> set types. \<forall>m\<ge>N.
      nested m ?r package t = Some (Inr (nested_fixed_spec r package t))"
    using common_fuel [of "set types"
        "\<lambda>t m. nested m ?r package t = Some (Inr (nested_fixed_spec r package t))"] each
    by blast
  have it: "set (order types) = set types"
    using ok by (simp add: set_iter_ok_def)
  have run: "is_fixed_length (Suc m) ?r spec package
      = Some (Inr (\<not> bad \<and> (\<forall>t \<in> set types. nested_fixed_spec r package t)))"
    if m: "N \<le> m" for m
  proof (cases bad)
    case True
    then have "is_fixed_length_scan r [] (spec_fields spec) = None"
      by (simp add: scan_eq bad_def)
    with True show ?thesis by simp
  next
    case False
    have s: "is_fixed_length_scan r [] (spec_fields spec) = Some types"
      using False by (simp add: scan_eq bad_def types_def)
    have n: "\<forall>t \<in> set (order types).
        nested m ?r package t = Some (Inr (nested_fixed_spec r package t))"
      using N m it by simp
    then have "\<forall>t \<in> set (order types). \<exists>b. nested m ?r package t = Some (Inr b)"
      by blast
    from types_all [OF this]
    have "is_fixed_length_types m ?r (order types) package
           = Some (Inr (\<forall>t \<in> set (order types). nested m ?r package t = Some (Inr True)))" .
    also have "(\<forall>t \<in> set (order types). nested m ?r package t = Some (Inr True))
        \<longleftrightarrow> (\<forall>t \<in> set types. nested_fixed_spec r package t)"
      using n it by auto
    finally show ?thesis using s False by simp
  qed
  have "\<forall>m\<ge>Suc N. is_fixed_length m ?r spec package
      = Some (Inr (\<not> bad \<and> (\<forall>t \<in> set types. nested_fixed_spec r package t)))"
  proof (intro allI impI)
    fix m assume "Suc N \<le> m"
    then obtain m' where "m = Suc m'" "N \<le> m'" by (cases m) auto
    with run show "is_fixed_length m ?r spec package
      = Some (Inr (\<not> bad \<and> (\<forall>t \<in> set types. nested_fixed_spec r package t)))" by simp
  qed
  moreover have "(\<not> bad \<and> (\<forall>t \<in> set types. nested_fixed_spec r package t))
      \<longleftrightarrow> fixed_length_spec r spec package"
    by (simp add: fixed_length_spec_iff [of r spec package] bad_def types_def)
  ultimately show ?case by auto
qed

text \<open>
  C3. When every composite type that is reached resolves and the schemas form no cycle,
  \<open>is_fixed_length\<close> returns, from some depth of recursion on, a boolean, and it is true
  if and only if no field is a variable-length array, no field has the base type
  \<^verbatim>\<open>string\<close> and the schema of every composite base type, looked up in its own package or
  else in the owning one, is itself of fixed length.
\<close>

theorem is_fixed_length_iff:
  assumes ok: "set_iter_ok r" and res: "resolvable r spec package"
  shows "\<exists>n b. (\<forall>m\<ge>n. is_fixed_length m r spec package = Some (Inr b))
           \<and> (b \<longleftrightarrow> fixed_length_spec r spec package)"
proof -
  from ok have "set_iter_ok (r\<lparr>set_iter := set_iter r\<rparr>)" by simp
  from is_fixed_length_returns [OF this res] show ?thesis by auto
qed

lemma ex_set_iter_set: "set (ex_set_iter ts) = set ts"
  by (induction ts) auto

lemma ex_set_iter_distinct: "distinct (ex_set_iter ts)"
  by (induction ts) (auto simp: ex_set_iter_set)

lemma ex_set_iter_ok: "set_iter_ok (ex_roslib repo)"
  by (simp add: set_iter_ok_def ex_roslib_def ex_set_iter_set ex_set_iter_distinct)

lemma ex_point_resolvable: "resolvable (ex_roslib ex_repo) ex_point ''geometry_msgs''"
proof (rule resolvable.intros)
  fix type name
  assume "(type, name) \<in> set (spec_fields ex_point)"
    and "\<not> is_builtin (ex_roslib ex_repo) (base_type_of (ex_roslib ex_repo) type)"
  then have False
    by (auto simp: ex_point_def ex_roslib_def base_type_of_def ex_parse_type_def
        ex_is_builtin_def)
  then show "\<exists>new_spec.
         load_by_type (ex_roslib ex_repo) (base_type_of (ex_roslib ex_repo) type)
           (resolve_package (ex_roslib ex_repo) ''geometry_msgs''
              (base_type_of (ex_roslib ex_repo) type)) = Inr new_spec
         \<and> resolvable (ex_roslib ex_repo) new_spec
             (resolve_package (ex_roslib ex_repo) ''geometry_msgs''
                (base_type_of (ex_roslib ex_repo) type))" ..
qed

lemma ex_segment_resolvable: "resolvable (ex_roslib ex_repo) ex_segment ''nav''"
proof (rule resolvable.intros)
  fix type name
  assume f: "(type, name) \<in> set (spec_fields ex_segment)"
    and nb: "\<not> is_builtin (ex_roslib ex_repo) (base_type_of (ex_roslib ex_repo) type)"
  have b: "base_type_of (ex_roslib ex_repo) ''geometry_msgs/Point'' = ''geometry_msgs/Point''"
    by code_simp
  have i: "is_builtin (ex_roslib ex_repo) (base_type_of (ex_roslib ex_repo) ''int32'')"
    by code_simp
  have p: "resolve_package (ex_roslib ex_repo) ''nav'' ''geometry_msgs/Point'' = ''geometry_msgs''"
    by code_simp
  have l: "load_by_type (ex_roslib ex_repo) ''geometry_msgs/Point'' ''geometry_msgs'' = Inr ex_point"
    by code_simp
  from f nb i have "type = ''geometry_msgs/Point''"
    by (auto simp: ex_segment_def)
  with b p l ex_point_resolvable
  show "\<exists>new_spec.
         load_by_type (ex_roslib ex_repo) (base_type_of (ex_roslib ex_repo) type)
           (resolve_package (ex_roslib ex_repo) ''nav''
              (base_type_of (ex_roslib ex_repo) type)) = Inr new_spec
         \<and> resolvable (ex_roslib ex_repo) new_spec
             (resolve_package (ex_roslib ex_repo) ''nav''
                (base_type_of (ex_roslib ex_repo) type))"
    by simp
qed

lemma ex_segment_run: "is_fixed_length 2 (ex_roslib ex_repo) ex_segment ''nav'' = Some (Inr True)"
  by code_simp

theorem is_fixed_length_iff_witness:
  "set_iter_ok (ex_roslib ex_repo) \<and> resolvable (ex_roslib ex_repo) ex_segment ''nav''
   \<and> is_fixed_length 2 (ex_roslib ex_repo) ex_segment ''nav'' = Some (Inr True)
   \<and> fixed_length_spec (ex_roslib ex_repo) ex_segment ''nav''"
proof -
  from is_fixed_length_iff [OF ex_set_iter_ok ex_segment_resolvable]
  obtain n b where n: "\<forall>m\<ge>n. is_fixed_length m (ex_roslib ex_repo) ex_segment ''nav'' = Some (Inr b)"
    and b: "b \<longleftrightarrow> fixed_length_spec (ex_roslib ex_repo) ex_segment ''nav''"
    by blast
  from n have "is_fixed_length (max n 2) (ex_roslib ex_repo) ex_segment ''nav'' = Some (Inr b)"
    by simp
  moreover have "is_fixed_length (max n 2) (ex_roslib ex_repo) ex_segment ''nav'' = Some (Inr True)"
    using fuel_mono [OF ex_segment_run, of "max n 2"] by simp
  ultimately have "b" by simp
  with b ex_set_iter_ok ex_segment_resolvable ex_segment_run show ?thesis by blast
qed

lemma types_True:
  "is_fixed_length_types n r ts p = Some (Inr True)
     \<Longrightarrow> \<forall>t \<in> set ts. nested n r p t = Some (Inr True)"
proof (induction ts)
  case Nil
  then show ?case by simp
next
  case (Cons t ts)
  then show ?case
    by (auto simp del: is_fixed_length_types.simps simp add: types_Cons
        split: option.splits sum.splits if_splits)
qed

lemma types_False:
  "is_fixed_length_types n r ts p = Some (Inr False)
     \<Longrightarrow> \<exists>t \<in> set ts. nested n r p t = Some (Inr False)"
proof (induction ts)
  case Nil
  then show ?case by simp
next
  case (Cons t ts)
  then show ?case
    by (auto simp del: is_fixed_length_types.simps simp add: types_Cons
        split: option.splits sum.splits if_splits)
qed

lemma types_agree:
  assumes s: "set l = set l'"
    and agree: "\<And>t c c'. t \<in> set l \<Longrightarrow> nested n r p t = Some (Inr c)
                  \<Longrightarrow> nested k r' p t = Some (Inr c') \<Longrightarrow> c = c'"
    and a: "is_fixed_length_types n r l p = Some (Inr b)"
    and a': "is_fixed_length_types k r' l' p = Some (Inr b')"
  shows "b = b'"
proof (cases b)
  case True
  note bT = this
  show ?thesis
  proof (cases b')
    case True
    with bT show ?thesis by simp
  next
    case False
    with a' have "is_fixed_length_types k r' l' p = Some (Inr False)" by simp
    from types_False [OF this] obtain t where t: "t \<in> set l'"
      and f: "nested k r' p t = Some (Inr False)"
      by blast
    from a bT have "is_fixed_length_types n r l p = Some (Inr True)" by simp
    from types_True [OF this] t s have "nested n r p t = Some (Inr True)"
      by blast
    with f t s agree show ?thesis by blast
  qed
next
  case False
  note bF = this
  show ?thesis
  proof (cases b')
    case False
    with bF show ?thesis by simp
  next
    case True
    from a bF have "is_fixed_length_types n r l p = Some (Inr False)" by simp
    from types_False [OF this] obtain t where t: "t \<in> set l"
      and f: "nested n r p t = Some (Inr False)"
      by blast
    from a' True have "is_fixed_length_types k r' l' p = Some (Inr True)" by simp
    from types_True [OF this] t s have "nested k r' p t = Some (Inr True)"
      by blast
    with f t agree show ?thesis by blast
  qed
qed





















subsection \<open>The generator\<close>

text \<open>Nothing but \<open>is_fixed_length\<close> looks at the order in which a set is iterated.\<close>

lemma msg_type_to_cpp_set_iter [simp]:
  "msg_type_to_cpp (r\<lparr>set_iter := order\<rparr>) type = msg_type_to_cpp r type"
  by (simp add: msg_type_to_cpp_def cong: if_cong sum.case_cong)

lemma include_line_set_iter [simp]:
  "include_line (r\<lparr>set_iter := order\<rparr>) = include_line r"
  by (rule ext) (simp add: include_line_def)

lemma write_includes_set_iter [simp]:
  "write_includes (r\<lparr>set_iter := order\<rparr>) s spec = write_includes r s spec"
  by (simp add: write_includes_def write_includes_loop_eq)

lemma write_constructor_inits_set_iter [simp]:
  "write_constructor_inits (r\<lparr>set_iter := order\<rparr>) s i fs = write_constructor_inits r s i fs"
  by (induction fs arbitrary: s i) (auto cong: if_cong)

lemma write_constructor_assigns_set_iter [simp]:
  "write_constructor_assigns (r\<lparr>set_iter := order\<rparr>) s fs = write_constructor_assigns r s fs"
  by (induction fs arbitrary: s) (auto cong: if_cong)

lemma write_member_set_iter [simp]:
  "write_member (r\<lparr>set_iter := order\<rparr>) s type name = write_member r s type name"
  by (simp add: write_member_def cong: sum.case_cong)

lemma write_members_loop_set_iter [simp]:
  "write_members_loop (r\<lparr>set_iter := order\<rparr>) s fs = write_members_loop r s fs"
  by (induction fs arbitrary: s) (auto cong: sum.case_cong)

lemma write_constant_set_iter [simp]:
  "write_constant (r\<lparr>set_iter := order\<rparr>) s c = write_constant r s c"
  by (simp add: write_constant_def cong: if_cong sum.case_cong)

lemma write_constants_loop_set_iter [simp]:
  "write_constants_loop (r\<lparr>set_iter := order\<rparr>) s cs = write_constants_loop r s cs"
  by (induction cs arbitrary: s) (simp_all cong: sum.case_cong)

lemma write_constructor_set_iter [simp]:
  "write_constructor (r\<lparr>set_iter := order\<rparr>) s msg spec = write_constructor r s msg spec"
  by (simp add: write_constructor_def)

lemma write_members_set_iter [simp]:
  "write_members (r\<lparr>set_iter := order\<rparr>) s spec = write_members r s spec"
  by (simp add: write_members_def)

lemma write_constants_set_iter [simp]:
  "write_constants (r\<lparr>set_iter := order\<rparr>) s spec = write_constants r s spec"
  by (simp add: write_constants_def)

lemma write_struct_set_iter [simp]:
  "write_struct (r\<lparr>set_iter := order\<rparr>) s spec pkg msg = write_struct r s spec pkg msg"
  unfolding write_struct_def by (simp cong: sum.case_cong)

lemma is_fixed_length_order:
  assumes ok: "set_iter_ok r" and ok': "set_iter_ok (r\<lparr>set_iter := order\<rparr>)"
  shows "is_fixed_length n r spec p = Some (Inr b) \<Longrightarrow>
         is_fixed_length n' (r\<lparr>set_iter := order\<rparr>) spec p = Some (Inr b') \<Longrightarrow> b = b'"
proof (induction n arbitrary: n' spec p b b')
  case 0
  then show ?case by simp
next
  case (Suc n)
  from Suc.prems(2) obtain k where k: "n' = Suc k" by (cases n') auto
  show ?case
  proof (cases "is_fixed_length_scan r [] (spec_fields spec)")
    case None
    with Suc.prems k show ?thesis by simp
  next
    case (Some types)
    from ok ok' have l: "set (set_iter r types) = set (order types)"
      by (simp add: set_iter_ok_def)
    from Suc.prems(1) Some
    have a: "is_fixed_length_types n r (set_iter r types) p = Some (Inr b)" by simp
    from Suc.prems(2) Some k
    have a': "is_fixed_length_types k (r\<lparr>set_iter := order\<rparr>) (order types) p = Some (Inr b')"
      by simp
    have agree: "c = c'" if "nested n r p t = Some (Inr c)"
      "nested k (r\<lparr>set_iter := order\<rparr>) p t = Some (Inr c')" for t c c'
    proof (cases "load_by_type r t (resolve_package r p t)")
      case (Inl e)
      with that show ?thesis by (simp add: nested_def)
    next
      case (Inr new_spec)
      with that have "is_fixed_length n r new_spec (resolve_package r p t) = Some (Inr c)"
        and "is_fixed_length k (r\<lparr>set_iter := order\<rparr>) new_spec (resolve_package r p t)
               = Some (Inr c')"
        by (simp_all add: nested_def)
      then show ?thesis by (rule Suc.IH)
    qed
    from types_agree [OF l agree a a'] show ?thesis by simp
  qed
qed

lemma write_traits_bodies_cong:
  assumes "digest_of g' spec pkg = digest_of g spec pkg"
    and "is_fixed_length n' r' spec pkg = is_fixed_length n r spec pkg"
  shows "write_traits_bodies n' r' g' s spec pkg msg = write_traits_bodies n r g s spec pkg msg"
proof (cases "get_dependencies g spec pkg")
  case (Inl e)
  with assms(1) have "get_dependencies g' spec pkg = Inl e"
    by (cases "get_dependencies g' spec pkg") (simp_all add: digest_of_def)
  with Inl show ?thesis by (simp add: write_traits_bodies_def)
next
  case (Inr d)
  with assms(1) obtain d' where d': "get_dependencies g' spec pkg = Inr d'"
    and m: "compute_md5 g' d' = compute_md5 g d"
    and t: "compute_full_text g' d' = compute_full_text g d"
    by (cases "get_dependencies g' spec pkg") (simp_all add: digest_of_def)
  from t have "compute_full_text_escaped g' d' = compute_full_text_escaped g d"
    by (simp add: compute_full_text_escaped_eq)
  with Inr d' m assms(2) show ?thesis
    by (simp add: write_traits_bodies_def Let_def)
qed

lemma write_traits_bodies_result:
  assumes "write_traits_bodies n r g s spec pkg msg = Some (Inr s')"
  shows "\<exists>b. is_fixed_length n r spec pkg = Some (Inr b)"
proof (cases "get_dependencies g spec pkg")
  case (Inl e)
  with assms show ?thesis by (simp add: write_traits_bodies_def)
next
  case (Inr d)
  with assms show ?thesis
    by (cases "is_fixed_length n r spec pkg"; cases "the (is_fixed_length n r spec pkg)")
       (auto simp: write_traits_bodies_def Let_def)
qed

lemma write_traits_bodies_order:
  assumes ok: "set_iter_ok r" and ok': "set_iter_ok (r\<lparr>set_iter := order\<rparr>)"
    and dg: "digest_of g' spec pkg = digest_of g spec pkg"
    and a: "write_traits_bodies n r g s spec pkg msg = Some (Inr out)"
    and a': "write_traits_bodies n' (r\<lparr>set_iter := order\<rparr>) g' s spec pkg msg = Some (Inr out')"
  shows "out = out'"
proof -
  from write_traits_bodies_result [OF a] obtain b where
    b: "is_fixed_length n r spec pkg = Some (Inr b)" by blast
  from write_traits_bodies_result [OF a'] obtain b' where
    b': "is_fixed_length n' (r\<lparr>set_iter := order\<rparr>) spec pkg = Some (Inr b')" by blast
  from is_fixed_length_order [OF ok ok' b b'] b b'
  have "is_fixed_length n' (r\<lparr>set_iter := order\<rparr>) spec pkg = is_fixed_length n r spec pkg"
    by simp
  from write_traits_bodies_cong [OF dg this] a a' show ?thesis by simp
qed



lemma generate_cong:
  assumes dp: "get_dir_pkg g' msg_path = get_dir_pkg g msg_path"
    and lf: "load_from_file g' msg_path = load_from_file g msg_path"
    and dg: "\<forall>spec package. digest_of g' spec package = digest_of g spec package"
    and fl: "\<And>package_dir package name spec.
        get_dir_pkg g msg_path = Inr (package_dir, package) \<Longrightarrow>
        load_from_file g msg_path = Inr (name, spec) \<Longrightarrow>
        is_fixed_length n' (r\<lparr>set_iter := order\<rparr>) spec package
          = is_fixed_length n r spec package"
  shows "generate n' (r\<lparr>set_iter := order\<rparr>) g' msg_path = generate n r g msg_path"
proof (cases "get_dir_pkg g msg_path")
  case (Inl e)
  with dp show ?thesis by (simp add: generate_def)
next
  case (Inr x)
  obtain package_dir package where x: "x = (package_dir, package)" by (cases x)
  show ?thesis
  proof (cases "load_from_file g msg_path")
    case (Inl e)
    with Inr dp lf show ?thesis by (simp add: generate_def)
  next
    case ns: (Inr ns)
    obtain name spec where ns': "ns = (name, spec)" by (cases ns)
    from fl Inr x ns ns'
    have f: "is_fixed_length n' (r\<lparr>set_iter := order\<rparr>) spec package
        = is_fixed_length n r spec package" by simp
    from dg have d: "digest_of g' spec package = digest_of g spec package" by blast
    have "write_traits_bodies n' (r\<lparr>set_iter := order\<rparr>) g' s spec package name
        = write_traits_bodies n r g s spec package name" for s
      by (rule write_traits_bodies_cong [OF d f])
    then show ?thesis
      by (simp only: generate_def dp lf Inr x ns ns' sum.case prod.case Let_def
          write_struct_set_iter write_includes_set_iter)
  qed
qed

lemma generate_returns:
  assumes "get_dir_pkg g msg_path = Inr (package_dir, package)"
    and "load_from_file g msg_path = Inr (name, spec)"
    and "\<forall>s. \<exists>s'. write_struct r s spec package name = Inr s'"
    and "get_dependencies g spec package = Inr d"
    and "is_fixed_length n r spec package = Some (Inr b)"
  shows "\<exists>out. generate n r g msg_path = Some (Inr out)"
proof -
  define s0 where "s0 = write_serialization_declarations
        (write_traits_declarations
           (write_includes r (write_begin [] package name msg_path) spec
              @ ''namespace '' @ package @ '' { struct '' @ name @ ''; }\<newline>\<newline>'')
           spec package name) spec package name
        @ ''namespace '' @ package @ ''\<newline>{\<newline>''"
  from assms(3) obtain s1 where
    s1: "write_struct r s0 spec package name = Inr s1" by blast
  define s2 where "s2 = write_struct_bodies s1 spec package name
          @ ''} // namespace '' @ package @ ''\<newline>\<newline>''"
  from assms(4,5) obtain s3 where
    s3: "write_traits_bodies n r g s2 spec package name = Some (Inr s3)"
    by (simp add: write_traits_bodies_def Let_def)
  from assms(1,2) s1 s3 show ?thesis
    by (simp add: generate_def Let_def s0_def s2_def)
qed


lemma write_members_loop_append:
  "write_members_loop r s fs = Inr s' \<Longrightarrow> \<exists>t. s' = s @ t"
proof (induction fs arbitrary: s)
  case Nil
  then show ?case by simp
next
  case (Cons f fs)
  obtain type name where f: "f = (type, name)" by (cases f)
  from Cons.prems f obtain s1 where s1: "write_member r s type name = Inr s1"
    and l: "write_members_loop r s1 fs = Inr s'"
    by (cases "write_member r s type name") auto
  from s1 obtain t1 where t1: "s1 = s @ t1"
    by (cases "msg_type_to_cpp r type") (auto simp: write_member_def Let_def)
  from Cons.IH [OF l] obtain t where "s' = s1 @ t" by blast
  with t1 show ?case by simp
qed

lemma write_constants_loop_append:
  "write_constants_loop r s cs = Inr s' \<Longrightarrow> \<exists>t. s' = s @ t"
proof (induction cs arbitrary: s)
  case Nil
  then show ?case by simp
next
  case (Cons c cs)
  from Cons.prems obtain s1 where s1: "write_constant r s c = Inr s1"
    and l: "write_constants_loop r s1 cs = Inr s'"
    by (cases "write_constant r s c") auto
  from s1 obtain t1 where t1: "s1 = s @ t1"
    by (cases "msg_type_to_cpp r (const_type c)")
       (auto simp: write_constant_def split: if_splits)
  from Cons.IH [OF l] obtain t where "s' = s1 @ t" by blast
  with t1 show ?case by simp
qed

lemma write_constructor_append: "\<exists>t. write_constructor r s msg spec = s @ t"
proof -
  have "write_constructor r s msg spec =
     s @ ''  '' @ msg @ ''()\<newline>''
       @ initializer_list (non_array_fields r spec)
       @ ''  {\<newline>''
       @ write_constructor_assigns r [] (spec_fields spec)
       @ ''  }\<newline>\<newline>''"
    unfolding write_constructor_def Let_def non_array_fields_def write_constructor_inits_first
    by (subst write_constructor_assigns_append) simp
  then show ?thesis by blast
qed

lemma write_struct_append:
  assumes "write_struct r s spec pkg msg = Inr s'"
  shows "\<exists>t. s' = s @ t"
proof -
  obtain t0 where t0: "write_constructor r
      (s @ ''struct '' @ msg @ '' : public ros::Message\<newline>{\<newline>'') msg spec = s @ t0"
    using write_constructor_append
      [of r "s @ ''struct '' @ msg @ '' : public ros::Message\<newline>{\<newline>''" msg spec]
    by auto
  from assms t0 obtain s1 where s1: "write_members r (s @ t0) spec = Inr s1"
    by (cases "write_members r (s @ t0) spec") (auto simp: write_struct_def Let_def)
  then obtain t1 where t1: "s1 = (s @ t0) @ t1"
    unfolding write_members_def using write_members_loop_append by blast
  from assms t0 s1 obtain s2 where s2: "write_constants r s1 spec = Inr s2"
    by (cases "write_constants r s1 spec") (auto simp: write_struct_def Let_def)
  then obtain t2 where t2: "s2 = s1 @ t2"
    by (cases "write_constants_loop r s1 (constants spec)")
       (auto simp: write_constants_def dest: write_constants_loop_append)
  from assms t0 s1 s2 have "\<exists>t. s' = s2 @ t"
    by (auto simp: write_struct_def Let_def write_deprecated_member_functions_def)
  with t1 t2 show ?thesis by auto
qed

lemma write_traits_bodies_append:
  assumes "write_traits_bodies n r g s spec pkg msg = Some (Inr s')"
  shows "\<exists>t. s' = s @ t"
proof (cases "get_dependencies g spec pkg")
  case (Inl e)
  with assms show ?thesis by (simp add: write_traits_bodies_def)
next
  case (Inr d)
  from write_traits_bodies_result [OF assms] obtain b where
    "is_fixed_length n r spec pkg = Some (Inr b)" by blast
  with assms Inr show ?thesis
    by (auto simp: write_traits_bodies_def Let_def)
qed

lemma generate_out:
  assumes gen: "generate n r g msg_path = Some (Inr out)"
    and dp: "get_dir_pkg g msg_path = Inr (package_dir, package)"
    and lf: "load_from_file g msg_path = Inr (name, spec)"
  shows "fst out = package_dir @ ''/msg/cpp/'' @ package @ ''/'' @ name @ ''.h''
       \<and> (\<exists>rest. snd out
              = ''/* Auto-generated by genmsg_cpp for file '' @ msg_path @ '' */\<newline>'' @ rest)"
proof -
  let ?h = "''/* Auto-generated by genmsg_cpp for file '' @ msg_path @ '' */\<newline>''"
  define s0 where "s0 = write_serialization_declarations
        (write_traits_declarations
           (write_includes r (write_begin [] package name msg_path) spec
              @ ''namespace '' @ package @ '' { struct '' @ name @ ''; }\<newline>\<newline>'')
           spec package name) spec package name
        @ ''namespace '' @ package @ ''\<newline>{\<newline>''"
  have "\<exists>t. s0 = ?h @ t"
    by (simp add: s0_def write_serialization_declarations_def write_traits_declarations_def
        write_includes_def write_includes_loop_eq write_begin_def Let_def)
  then obtain t0 where t0: "s0 = ?h @ t0" by blast
  from gen dp lf obtain s1 where s1: "write_struct r s0 spec package name = Inr s1"
    by (cases "write_struct r s0 spec package name") (auto simp: generate_def Let_def s0_def)
  from write_struct_append [OF s1] obtain t1 where t1: "s1 = s0 @ t1" by blast
  define s2 where "s2 = write_struct_bodies s1 spec package name
          @ ''} // namespace '' @ package @ ''\<newline>\<newline>''"
  from gen dp lf s1 obtain s3 where
    s3: "write_traits_bodies n r g s2 spec package name = Some (Inr s3)"
    and o: "out = (package_dir @ ''/msg/cpp/'' @ package @ ''/'' @ name @ ''.h'',
                  write_end (write_serialization_bodies s3 spec package name) package name
                    @ ''\<newline>'')"
    by (cases "write_traits_bodies n r g s2 spec package name";
        cases "the (write_traits_bodies n r g s2 spec package name)")
       (auto simp: generate_def Let_def s0_def s2_def)
  from write_traits_bodies_append [OF s3] obtain t3 where t3: "s3 = s2 @ t3" by blast
  have "\<exists>t. write_end (write_serialization_bodies s3 spec package name) package name
            @ ''\<newline>'' = s3 @ t"
    by (simp add: write_end_def write_serialization_bodies_def Let_def
        write_serialization_loop_eq)
  then obtain t4 where "write_end (write_serialization_bodies s3 spec package name) package name
            @ ''\<newline>'' = s3 @ t4" by blast
  with o t0 t1 t3 have "snd out = ?h @ (t0 @ t1 @ ''} // namespace '' @ package
      @ ''\<newline>\<newline>'' @ t3 @ t4)"
    by (simp add: s2_def write_struct_bodies_def)
  with o show ?thesis by auto
qed

text \<open>
  C5, as stated, fails: the text is not a function of the schema and its digest alone. The
  path of the schema file, as it is given, is written into the first line, so the same
  schema with the same digest gives two texts under the paths \<^verbatim>\<open>msg/One.msg\<close> and
  \<^verbatim>\<open>./msg/One.msg\<close>, written to the same file.
\<close>

theorem generate_path_dependent:
  "load_from_file (ex_one_run ''msg/One.msg'') ''msg/One.msg''
     = load_from_file (ex_one_run ''./msg/One.msg'') ''./msg/One.msg''
   \<and> digest_of (ex_one_run ''msg/One.msg'') ex_one ''p''
     = digest_of (ex_one_run ''./msg/One.msg'') ex_one ''p''
   \<and> (\<exists>out out'.
         generate 1 (ex_roslib []) (ex_one_run ''msg/One.msg'') ''msg/One.msg'' = Some (Inr out)
       \<and> generate 1 (ex_roslib []) (ex_one_run ''./msg/One.msg'') ''./msg/One.msg''
           = Some (Inr out')
       \<and> fst out = fst out' \<and> snd out \<noteq> snd out')"
proof -
  have dp: "get_dir_pkg (ex_one_run p) p = Inr (''/ros/p'', ''p'')" for p
    by (simp add: ex_one_run_def ex_gentools_def)
  have lf: "load_from_file (ex_one_run p) p = Inr (''One'', ex_one)" for p
    by (simp add: ex_one_run_def ex_gentools_def)
  have gd: "get_dependencies (ex_one_run p) ex_one ''p'' = Inr ex_one_digest" for p
    by (simp add: ex_one_run_def ex_gentools_def)
  have dg: "digest_of (ex_one_run p) ex_one ''p'' = Inr ex_one_digest" for p
    by (simp add: digest_of_def ex_one_run_def ex_gentools_def ex_one_digest_def)
  have m: "msg_type_to_cpp (ex_roslib []) ''int32'' = Inr ''int32_t''"
    by code_simp
  have ws: "\<forall>s. \<exists>s'. write_struct (ex_roslib []) s ex_one ''p'' ''One'' = Inr s'"
    using m
    by (simp add: write_struct_def write_members_def write_constants_def write_member_def
        ex_one_def Let_def)
  have fl: "is_fixed_length 1 (ex_roslib []) ex_one ''p'' = Some (Inr True)"
    by code_simp
  from generate_returns [OF dp lf ws gd fl] obtain out where
    a: "generate 1 (ex_roslib []) (ex_one_run ''msg/One.msg'') ''msg/One.msg'' = Some (Inr out)"
    by blast
  from generate_returns [OF dp lf ws gd fl] obtain out' where
    a': "generate 1 (ex_roslib []) (ex_one_run ''./msg/One.msg'') ''./msg/One.msg''
           = Some (Inr out')"
    by blast
  from generate_out [OF a dp lf] generate_out [OF a' dp lf]
  have "fst out = fst out'" and "snd out \<noteq> snd out'"
    by auto
  with a a' lf dg show ?thesis by metis
qed

lemma generate_both:
  assumes ok: "set_iter_ok r" and ok': "set_iter_ok (r\<lparr>set_iter := order\<rparr>)"
    and dp: "get_dir_pkg g' msg_path = get_dir_pkg g msg_path"
    and lf: "load_from_file g' msg_path = load_from_file g msg_path"
    and dg: "\<forall>spec package. digest_of g' spec package = digest_of g spec package"
    and a: "generate n r g msg_path = Some (Inr out)"
    and a': "generate n' (r\<lparr>set_iter := order\<rparr>) g' msg_path = Some (Inr out')"
  shows "out = out'"
proof (cases "get_dir_pkg g msg_path")
  case (Inl e)
  with a show ?thesis by (simp add: generate_def)
next
  case (Inr x)
  obtain package_dir package where x: "x = (package_dir, package)" by (cases x)
  show ?thesis
  proof (cases "load_from_file g msg_path")
    case (Inl e)
    with a Inr x show ?thesis by (simp add: generate_def)
  next
    case ns: (Inr ns)
    obtain name spec where ns': "ns = (name, spec)" by (cases ns)
    define s0 where "s0 = write_serialization_declarations
        (write_traits_declarations
           (write_includes r (write_begin [] package name msg_path) spec
              @ ''namespace '' @ package @ '' { struct '' @ name @ ''; }\<newline>\<newline>'')
           spec package name) spec package name
        @ ''namespace '' @ package @ ''\<newline>{\<newline>''"
    show ?thesis
    proof (cases "write_struct r s0 spec package name")
      case (Inl e)
      with a Inr x ns ns' show ?thesis by (simp add: generate_def Let_def s0_def)
    next
      case ws: (Inr s1)
      define s2 where "s2 = write_struct_bodies s1 spec package name
          @ ''} // namespace '' @ package @ ''\<newline>\<newline>''"
      from a Inr x ns ns' ws obtain s3 where
        t: "write_traits_bodies n r g s2 spec package name = Some (Inr s3)"
        and o: "out = (package_dir @ ''/msg/cpp/'' @ package @ ''/'' @ name @ ''.h'',
                  write_end (write_serialization_bodies s3 spec package name) package name
                    @ ''\<newline>'')"
        by (cases "write_traits_bodies n r g s2 spec package name";
            cases "the (write_traits_bodies n r g s2 spec package name)")
           (auto simp: generate_def Let_def s0_def s2_def)
      from a' Inr x ns ns' ws dp lf obtain s3' where
        t': "write_traits_bodies n' (r\<lparr>set_iter := order\<rparr>) g' s2 spec package name
               = Some (Inr s3')"
        and o': "out' = (package_dir @ ''/msg/cpp/'' @ package @ ''/'' @ name @ ''.h'',
                  write_end (write_serialization_bodies s3' spec package name) package name
                    @ ''\<newline>'')"
        by (cases "write_traits_bodies n' (r\<lparr>set_iter := order\<rparr>) g' s2 spec package name";
            cases "the (write_traits_bodies n' (r\<lparr>set_iter := order\<rparr>) g' s2 spec package name)")
           (auto simp: generate_def Let_def s0_def s2_def)
      from dg have d: "digest_of g' spec package = digest_of g spec package" by blast
      from write_traits_bodies_order [OF ok ok' d t t'] have "s3 = s3'" .
      with o o' show ?thesis by simp
    qed
  qed
qed

lemma generate_total:
  assumes ok: "set_iter_ok r" and ok': "set_iter_ok (r\<lparr>set_iter := order\<rparr>)"
    and dp: "get_dir_pkg g' msg_path = get_dir_pkg g msg_path"
    and lf: "load_from_file g' msg_path = load_from_file g msg_path"
    and dg: "\<forall>spec package. digest_of g' spec package = digest_of g spec package"
    and d: "get_dir_pkg g msg_path = Inr (package_dir, package)"
    and l: "load_from_file g msg_path = Inr (name, spec)"
    and res: "resolvable r spec package"
    and ws: "\<forall>s. \<exists>s'. write_struct r s spec package name = Inr s'"
    and gd: "\<exists>d. get_dependencies g spec package = Inr d"
  shows "\<exists>k out. \<forall>m\<ge>k. generate m r g msg_path = Some (Inr out)
           \<and> generate m (r\<lparr>set_iter := order\<rparr>) g' msg_path = Some (Inr out)"
proof -
  from ok have ok0: "set_iter_ok (r\<lparr>set_iter := set_iter r\<rparr>)" by simp
  from is_fixed_length_returns [OF ok0 res] is_fixed_length_returns [OF ok' res]
  obtain k k' where
    k: "\<forall>m\<ge>k. is_fixed_length m r spec package
          = Some (Inr (fixed_length_spec r spec package))"
    and k': "\<forall>m\<ge>k'. is_fixed_length m (r\<lparr>set_iter := order\<rparr>) spec package
          = Some (Inr (fixed_length_spec r spec package))"
    by auto
  let ?K = "max k k'"
  from gd obtain dd where dd: "get_dependencies g spec package = Inr dd" by blast
  from k have "is_fixed_length ?K r spec package = Some (Inr (fixed_length_spec r spec package))"
    by simp
  from generate_returns [OF d l ws dd this] obtain out where
    out: "generate ?K r g msg_path = Some (Inr out)" by blast
  have "generate m r g msg_path = Some (Inr out)
      \<and> generate m (r\<lparr>set_iter := order\<rparr>) g' msg_path = Some (Inr out)"
    if m: "?K \<le> m" for m
  proof -
    have f: "is_fixed_length m (r\<lparr>set_iter := set_iter r\<rparr>) sp pk = is_fixed_length ?K r sp pk"
      if "get_dir_pkg g msg_path = Inr (pd, pk)" "load_from_file g msg_path = Inr (nm, sp)"
      for pd pk nm sp
      using that d l k m by simp
    have f': "is_fixed_length m (r\<lparr>set_iter := order\<rparr>) sp pk = is_fixed_length ?K r sp pk"
      if "get_dir_pkg g msg_path = Inr (pd, pk)" "load_from_file g msg_path = Inr (nm, sp)"
      for pd pk nm sp
      using that d l k k' m by simp
    have triv: "\<forall>spec package. digest_of g spec package = digest_of g spec package"
      by simp
    from generate_cong [where g' = g and g = g and order = "set_iter r", OF refl refl triv f]
    have "generate m r g msg_path = generate ?K r g msg_path" by simp
    moreover from generate_cong [OF dp lf dg f']
    have "generate m (r\<lparr>set_iter := order\<rparr>) g' msg_path = generate ?K r g msg_path" .
    ultimately show ?thesis using out by simp
  qed
  then show ?thesis by blast
qed

text \<open>
  C5, amended. The file that \<open>generate\<close> writes is a function of the path of the schema
  file as it is given, of what the parser returns for it (the package directory, the
  package, the name and the schema), of the digest (the hash and the definition text) and
  of the schemas looked up for the nested types. Neither the order in which
  \<^verbatim>\<open>set(types)\<close> is iterated nor the depth allowed to the recursion changes it: two runs
  that both write a file write the same path and the same text, and when every composite
  type that is reached resolves without a cycle, the members and constants can be written
  and the digest is there, every run writes that file from some depth on.
\<close>

theorem generate_deterministic:
  assumes ok: "set_iter_ok r" and ok': "set_iter_ok (r\<lparr>set_iter := order\<rparr>)"
    and dp: "get_dir_pkg g' msg_path = get_dir_pkg g msg_path"
    and lf: "load_from_file g' msg_path = load_from_file g msg_path"
    and dg: "\<forall>spec package. digest_of g' spec package = digest_of g spec package"
  shows "(generate n r g msg_path = Some (Inr out)
            \<and> generate n' (r\<lparr>set_iter := order\<rparr>) g' msg_path = Some (Inr out')
          \<longrightarrow> out = out')
       \<and> (get_dir_pkg g msg_path = Inr (package_dir, package)
            \<and> load_from_file g msg_path = Inr (name, spec)
            \<and> resolvable r spec package
            \<and> (\<forall>s. \<exists>s'. write_struct r s spec package name = Inr s')
            \<and> (\<exists>d. get_dependencies g spec package = Inr d)
          \<longrightarrow> (\<exists>k out. \<forall>m\<ge>k. generate m r g msg_path = Some (Inr out)
                 \<and> generate m (r\<lparr>set_iter := order\<rparr>) g' msg_path = Some (Inr out)))"
  using generate_both [OF ok ok' dp lf dg] generate_total [OF ok ok' dp lf dg]
  by blast

lemma resolvable_leaf:
  assumes "\<forall>f \<in> set (spec_fields spec). is_builtin r (base_type_of r (fst f))"
  shows "resolvable r spec p"
  by (rule resolvable.intros) (use assms in force)

lemma ex_stamp_resolvable: "resolvable (ex_roslib ex_repo) ex_stamp ''nav''"
proof (rule resolvable_leaf)
  have "list_all (\<lambda>f. is_builtin (ex_roslib ex_repo) (base_type_of (ex_roslib ex_repo) (fst f)))
      (spec_fields ex_stamp)"
    by code_simp
  then show "\<forall>f \<in> set (spec_fields ex_stamp).
      is_builtin (ex_roslib ex_repo) (base_type_of (ex_roslib ex_repo) (fst f))"
    by (simp add: list_all_iff)
qed

lemma ex_stamped_point_resolvable:
  "resolvable (ex_roslib ex_repo) ex_stamped_point ''nav''"
proof (rule resolvable.intros)
  fix type name
  assume f: "(type, name) \<in> set (spec_fields ex_stamped_point)"
  have b: "base_type_of (ex_roslib ex_repo) ''geometry_msgs/Point'' = ''geometry_msgs/Point''"
    "base_type_of (ex_roslib ex_repo) ''Stamp'' = ''Stamp''"
    by code_simp+
  have p: "resolve_package (ex_roslib ex_repo) ''nav'' ''geometry_msgs/Point'' = ''geometry_msgs''"
    "resolve_package (ex_roslib ex_repo) ''nav'' ''Stamp'' = ''nav''"
    by code_simp+
  have l: "load_by_type (ex_roslib ex_repo) ''geometry_msgs/Point'' ''geometry_msgs'' = Inr ex_point"
    "load_by_type (ex_roslib ex_repo) ''Stamp'' ''nav'' = Inr ex_stamp"
    by code_simp+
  from f have "type = ''geometry_msgs/Point'' \<or> type = ''Stamp''"
    by (auto simp: ex_stamped_point_def)
  with b p l ex_point_resolvable ex_stamp_resolvable
  show "\<exists>new_spec.
         load_by_type (ex_roslib ex_repo) (base_type_of (ex_roslib ex_repo) type)
           (resolve_package (ex_roslib ex_repo) ''nav''
              (base_type_of (ex_roslib ex_repo) type)) = Inr new_spec
         \<and> resolvable (ex_roslib ex_repo) new_spec
             (resolve_package (ex_roslib ex_repo) ''nav''
                (base_type_of (ex_roslib ex_repo) type))"
    by auto
qed

lemma ex_orders:
  "set_iter (ex_roslib ex_repo) [''Stamp'', ''geometry_msgs/Point'']
     = [''Stamp'', ''geometry_msgs/Point'']
   \<and> set_iter ((ex_roslib ex_repo)\<lparr>set_iter := rev \<circ> ex_set_iter\<rparr>)
       [''Stamp'', ''geometry_msgs/Point''] = [''geometry_msgs/Point'', ''Stamp'']"
  by code_simp

theorem generate_deterministic_witness:
  "set_iter_ok (ex_roslib ex_repo)
   \<and> set_iter_ok ((ex_roslib ex_repo)\<lparr>set_iter := rev \<circ> ex_set_iter\<rparr>)
   \<and> resolvable (ex_roslib ex_repo) ex_stamped_point ''nav''
   \<and> set_iter (ex_roslib ex_repo) [''Stamp'', ''geometry_msgs/Point'']
       = [''Stamp'', ''geometry_msgs/Point'']
   \<and> set_iter ((ex_roslib ex_repo)\<lparr>set_iter := rev \<circ> ex_set_iter\<rparr>)
       [''Stamp'', ''geometry_msgs/Point''] = [''geometry_msgs/Point'', ''Stamp'']
   \<and> (\<exists>k out. \<forall>m\<ge>k.
          generate m (ex_roslib ex_repo) ex_run ''msg/StampedPoint.msg'' = Some (Inr out)
        \<and> generate m ((ex_roslib ex_repo)\<lparr>set_iter := rev \<circ> ex_set_iter\<rparr>) ex_run
            ''msg/StampedPoint.msg'' = Some (Inr out))"
proof -
  let ?r = "ex_roslib ex_repo"
  have ok': "set_iter_ok (?r\<lparr>set_iter := rev \<circ> ex_set_iter\<rparr>)"
    by (simp add: set_iter_ok_def ex_set_iter_set ex_set_iter_distinct)
  have d: "get_dir_pkg ex_run ''msg/StampedPoint.msg'' = Inr (''/ros/nav'', ''nav'')"
    by (simp add: ex_run_def ex_gentools_def)
  have l: "load_from_file ex_run ''msg/StampedPoint.msg'' = Inr (''StampedPoint'', ex_stamped_point)"
    by (simp add: ex_run_def ex_gentools_def)
  have g: "\<exists>d. get_dependencies ex_run ex_stamped_point ''nav'' = Inr d"
    by (simp add: ex_run_def ex_gentools_def)
  have m: "msg_type_to_cpp ?r ''Stamp'' = Inr ''Stamp''"
    "msg_type_to_cpp ?r ''geometry_msgs/Point'' = Inr ''geometry_msgs::Point''"
    by code_simp+
  have ws: "\<forall>s. \<exists>s'. write_struct ?r s ex_stamped_point ''nav'' ''StampedPoint'' = Inr s'"
    using m
    by (simp add: write_struct_def write_members_def write_constants_def write_member_def
        ex_stamped_point_def Let_def)
  have triv: "\<forall>spec package. digest_of ex_run spec package = digest_of ex_run spec package"
    by simp
  note th = generate_deterministic [OF ex_set_iter_ok [of ex_repo] ok' refl refl triv,
      where msg_path = "''msg/StampedPoint.msg''" and package_dir = "''/ros/nav''"
        and package = "''nav''" and name = "''StampedPoint''" and spec = ex_stamped_point]
  from th d l ex_stamped_point_resolvable ws g
  have "\<exists>k out. \<forall>m\<ge>k.
          generate m ?r ex_run ''msg/StampedPoint.msg'' = Some (Inr out)
        \<and> generate m (?r\<lparr>set_iter := rev \<circ> ex_set_iter\<rparr>) ex_run
            ''msg/StampedPoint.msg'' = Some (Inr out)"
    by blast
  with ex_set_iter_ok ok' ex_stamped_point_resolvable ex_orders show ?thesis by blast
qed

end
